theory Spec2Isabelle
  imports Complex_Main
begin

section \<open>Numbers of the script\<close>

text \<open>
  The script \<^verbatim>\<open>MTPcode.py\<close> computes with IEEE binary64 numbers: Python \<^verbatim>\<open>float\<close>
  for its constants and numpy \<^verbatim>\<open>float64\<close> for its arrays and for what the regression
  returns. A value of either kind is a finite number, an infinity or a NaN. Finite values
  are carried as the real number they denote; the sign of a zero is not represented (the
  divisions by zero that the script can reach have \<^verbatim>\<open>abs(slope)\<close> or a variance as
  divisor, a positive zero).
\<close>

datatype f64 = Fin real | PInf | NInf | NaN

text \<open>
  Rounding to binary64, to nearest with ties to even. \<open>ilog2 x\<close> is the binary exponent
  \<open>\<lfloor>log\<^sub>2 x\<rfloor>\<close> of a positive \<open>x\<close>; \<open>quantum x\<close> is the spacing of the binary64
  grid at \<open>x\<close>: 53 significant bits, and the fixed spacing \<open>2\<^sup>-\<^sup>1\<^sup>0\<^sup>7\<^sup>4\<close> below the
  smallest normal number \<open>2\<^sup>-\<^sup>1\<^sup>0\<^sup>2\<^sup>2\<close>. A result of magnitude \<open>2\<^sup>1\<^sup>0\<^sup>2\<^sup>4\<close> overflows.
\<close>

function ilog2 :: "real \<Rightarrow> int" where
  "ilog2 x = (if x \<le> 0 then 0 else if 2 \<le> x then ilog2 (x / 2) + 1
              else if x < 1 then ilog2 (2 * x) - 1 else 0)"
  by pat_completeness auto
termination
proof (relation "measure (\<lambda>x. if 1 \<le> x then nat \<lceil>x\<rceil> else nat \<lceil>1 / x\<rceil> + 1)")
  show "wf (measure (\<lambda>x::real. if 1 \<le> x then nat \<lceil>x\<rceil> else nat \<lceil>1 / x\<rceil> + 1))"
    by simp
next
  fix x :: real
  assume "\<not> x \<le> 0" and "2 \<le> x"
  then have "\<lceil>x / 2\<rceil> < \<lceil>x\<rceil>" and "0 < \<lceil>x\<rceil>"
    by linarith+
  with \<open>2 \<le> x\<close>
  show "(x / 2, x) \<in> measure (\<lambda>x. if 1 \<le> x then nat \<lceil>x\<rceil> else nat \<lceil>1 / x\<rceil> + 1)"
    by simp
next
  fix x :: real
  assume pos: "\<not> x \<le> 0" and "\<not> 2 \<le> x" and lt: "x < 1"
  then have inv: "1 < 1 / x" by simp
  show "(2 * x, x) \<in> measure (\<lambda>x. if 1 \<le> x then nat \<lceil>x\<rceil> else nat \<lceil>1 / x\<rceil> + 1)"
  proof (cases "1 \<le> 2 * x")
    case True
    have "\<lceil>2 * x\<rceil> \<le> 2" using lt by linarith
    moreover have "2 \<le> \<lceil>1 / x\<rceil>" using inv by linarith
    ultimately have "nat \<lceil>2 * x\<rceil> < nat \<lceil>1 / x\<rceil> + 1" by linarith
    then show ?thesis using True lt by simp
  next
    case False
    then have "2 < 1 / x" using pos by (simp add: field_simps)
    moreover have "1 / (2 * x) = (1 / x) / 2" by simp
    ultimately have "\<lceil>1 / (2 * x)\<rceil> < \<lceil>1 / x\<rceil>" by linarith
    moreover have "0 < \<lceil>1 / x\<rceil>" using inv by linarith
    ultimately have "nat \<lceil>1 / (2 * x)\<rceil> + 1 < nat \<lceil>1 / x\<rceil> + 1" by linarith
    then show ?thesis using False lt by simp
  qed
qed

declare ilog2.simps [simp del]

definition rne :: "real \<Rightarrow> int" where
  \<comment> \<open>the nearest integer, a tie going to the even one\<close>
  "rne y = (let f = \<lfloor>y\<rfloor>; d = y - of_int f in
     if d < 1 / 2 then f else if 1 / 2 < d then f + 1 else if even f then f else f + 1)"

definition quantum :: "real \<Rightarrow> real" where
  "quantum x = 2 powi (max (ilog2 \<bar>x\<bar>) (- 1022) - 52)"

definition rnd :: "real \<Rightarrow> real" where
  "rnd x = of_int (rne (x / quantum x)) * quantum x"

definition round64 :: "real \<Rightarrow> f64" where
  "round64 x = (let m = rnd x in
     if 2 ^ 1024 \<le> m then PInf else if m \<le> - (2 ^ 1024) then NInf else Fin m)"

text \<open>
  The operations of binary64 that the script uses, each the exact result rounded once.
  \<open>inf_sgn x\<close> is what a nonzero \<open>x\<close> times or over an unsigned infinity or zero gives.
\<close>

definition inf_sgn :: "real \<Rightarrow> f64" where
  "inf_sgn x = (if x = 0 then NaN else if 0 < x then PInf else NInf)"

fun fneg :: "f64 \<Rightarrow> f64" where
  "fneg (Fin x) = Fin (- x)"
| "fneg PInf = NInf"
| "fneg NInf = PInf"
| "fneg NaN = NaN"

fun fabs :: "f64 \<Rightarrow> f64" where
  "fabs (Fin x) = Fin \<bar>x\<bar>"
| "fabs PInf = PInf"
| "fabs NInf = PInf"
| "fabs NaN = NaN"

fun fadd :: "f64 \<Rightarrow> f64 \<Rightarrow> f64" where
  "fadd (Fin x) (Fin y) = round64 (x + y)"
| "fadd NaN b = NaN"
| "fadd a NaN = NaN"
| "fadd PInf NInf = NaN"
| "fadd NInf PInf = NaN"
| "fadd PInf b = PInf"
| "fadd a PInf = PInf"
| "fadd NInf b = NInf"
| "fadd a NInf = NInf"

definition fsub :: "f64 \<Rightarrow> f64 \<Rightarrow> f64" where
  "fsub a b = fadd a (fneg b)"

fun fmul :: "f64 \<Rightarrow> f64 \<Rightarrow> f64" where
  "fmul (Fin x) (Fin y) = round64 (x * y)"
| "fmul NaN b = NaN"
| "fmul a NaN = NaN"
| "fmul (Fin x) PInf = inf_sgn x"
| "fmul (Fin x) NInf = inf_sgn (- x)"
| "fmul PInf (Fin y) = inf_sgn y"
| "fmul NInf (Fin y) = inf_sgn (- y)"
| "fmul PInf PInf = PInf"
| "fmul PInf NInf = NInf"
| "fmul NInf PInf = NInf"
| "fmul NInf NInf = PInf"

fun fdiv :: "f64 \<Rightarrow> f64 \<Rightarrow> f64" where
  "fdiv (Fin x) (Fin y) = (if y = 0 then inf_sgn x else round64 (x / y))"
| "fdiv NaN b = NaN"
| "fdiv a NaN = NaN"
| "fdiv (Fin x) b = Fin 0"
| "fdiv PInf (Fin y) = (if y < 0 then NInf else PInf)"
| "fdiv NInf (Fin y) = (if y < 0 then PInf else NInf)"
| "fdiv a b = NaN"

text \<open>The comparisons \<^verbatim>\<open><\<close> and \<^verbatim>\<open><=\<close> of binary64: false as soon as a NaN is involved.\<close>

fun f64_lt :: "f64 \<Rightarrow> f64 \<Rightarrow> bool" where
  "f64_lt NaN b = False"
| "f64_lt a NaN = False"
| "f64_lt (Fin x) (Fin y) = (x < y)"
| "f64_lt a NInf = False"
| "f64_lt PInf b = False"
| "f64_lt a b = True"

fun f64_le :: "f64 \<Rightarrow> f64 \<Rightarrow> bool" where
  "f64_le NaN b = False"
| "f64_le a NaN = False"
| "f64_le (Fin x) (Fin y) = (x \<le> y)"
| "f64_le NInf b = True"
| "f64_le a PInf = True"
| "f64_le a b = False"

text \<open>
  A number is a Python \<^verbatim>\<open>float\<close> or a numpy \<^verbatim>\<open>float64\<close>. The two differ in one
  operation of the script: \<^verbatim>\<open>a / b\<close> with a zero \<open>b\<close> raises \<^verbatim>\<open>ZeroDivisionError\<close> when
  both operands are Python floats; when either is a numpy scalar, numpy divides (it
  overrides the reflected operator of \<^verbatim>\<open>float\<close>), warns and returns an infinity or a NaN
  as a \<^verbatim>\<open>float64\<close>.
\<close>

datatype num = PyFloat f64 | NpFloat f64

datatype pyerror = ZeroDivisionError | ValueError

fun value_of :: "num \<Rightarrow> f64" where
  "value_of (PyFloat a) = a"
| "value_of (NpFloat a) = a"

fun abs_num :: "num \<Rightarrow> num" where
  "abs_num (PyFloat a) = PyFloat (fabs a)"
| "abs_num (NpFloat a) = NpFloat (fabs a)"

fun truediv :: "num \<Rightarrow> num \<Rightarrow> pyerror + num" where
  "truediv (PyFloat a) (PyFloat b) =
     (if b = Fin 0 then Inl ZeroDivisionError else Inr (PyFloat (fdiv a b)))"
| "truediv a b = Inr (NpFloat (fdiv (value_of a) (value_of b)))"

section \<open>The script\<close>

text \<open>
  The constants, lines 8 to 12: each literal denotes the binary64 number nearest to it.
\<close>

definition Mw :: f64 where "Mw = round64 (1801528 / 100000)"
definition Ci :: f64 where "Ci = round64 (11 / 10)"
definition Co :: f64 where "Co = round64 (55 / 100)"

text \<open>
  \<^verbatim>\<open>def extract_D(slope): return Mw * (Ci - Co) / abs(slope)\<close>, lines 41 and 42. The
  product is a Python float; the kind of the quotient follows the kind of the slope.
\<close>

definition extract_D :: "num \<Rightarrow> pyerror + num" where
  "extract_D slope = truediv (PyFloat (fmul Mw (fsub Ci Co))) (abs_num slope)"

text \<open>
  What a call returned, for stating comparisons: the number behind either kind, and NaN
  (which compares false with everything) for a call that raised.
\<close>

fun returned :: "pyerror + num \<Rightarrow> f64" where
  "returned (Inr n) = value_of n"
| "returned (Inl e) = NaN"

subsection \<open>Arrays and the regression\<close>

text \<open>
  An array of the script is a list of finite binary64 numbers, each carried as the real
  it denotes. Between such numbers an operation whose result does not overflow is the
  exact result rounded by \<open>rnd\<close>; the array operations of the script stay far from
  overflow. The measurements, lines 19 to 32: thicknesses are integers times the
  binary64 number \<^verbatim>\<open>1e-6\<close>, transmission rates are integers.
\<close>

definition H_1x :: "real list" where
  "H_1x = map (\<lambda>k. rnd (k * rnd (1 / 10 ^ 6))) [57, 60, 62]"

definition WVTR_1x :: "real list" where
  "WVTR_1x = [3363, 2232, 1922]"

definition H_2x :: "real list" where
  "H_2x = map (\<lambda>k. rnd (k * rnd (1 / 10 ^ 6))) [72, 74, 79]"

definition WVTR_2x :: "real list" where
  "WVTR_2x = [2395, 1673, 1513]"

definition H_3x :: "real list" where
  "H_3x = map (\<lambda>k. rnd (k * rnd (1 / 10 ^ 6))) [73, 76, 79]"

definition WVTR_3x :: "real list" where
  "WVTR_3x = [2177, 1739, 1470]"

definition H_PLA :: "real list" where
  "H_PLA = map (\<lambda>k. rnd (k * rnd (1 / 10 ^ 6))) [64, 79, 81, 83]"

definition WVTR_PLA :: "real list" where
  "WVTR_PLA = [1880, 452, 414, 212]"

text \<open>
  \<^verbatim>\<open>scipy.stats.linregress\<close> is a library function, not part of the repository, and the
  repository names no release of it. It is modelled after its implementation in current
  SciPy. The two samples are first broadcast against each other, so that a sample of one
  point is repeated to the length of the other and lengths that cannot be broadcast
  raise \<^verbatim>\<open>ValueError\<close>; samples of fewer than two points give NaN for every result, with
  a warning and no error; two or more identical \<open>x\<close> raise \<^verbatim>\<open>ValueError\<close>. Then come
  the means, the entries of \<^verbatim>\<open>np.cov(x, y, bias=1)\<close>, the correlation coefficient (NaN
  or zero when a variance is zero, and otherwise forced into \<open>[-1, 1]\<close>), the slope as a
  numpy division, and the intercept computed from the slope.

  The results are binary64 numbers. The library rounds every step on the way, in an
  order that depends on numpy and on the linear algebra library behind it, which is not
  modelled: here the means and the entries of the covariance matrix are exact, and the
  slope, the intercept and the correlation coefficient are each rounded once, so that a
  result of the library may differ from the one here in its last places. The p-value and
  the standard errors, which \<open>fit_linear\<close> throws away, are left out. \<open>amax\<close> and \<open>amin\<close>
  are only applied to non-empty arrays.
\<close>

definition np_mean :: "real list \<Rightarrow> real" where
  "np_mean xs = sum_list xs / real (length xs)"

definition cov_b1 :: "real list \<Rightarrow> real list \<Rightarrow> real" where
  "cov_b1 xs ys =
     sum_list (map2 (\<lambda>x y. (x - np_mean xs) * (y - np_mean ys)) xs ys) / real (length xs)"

definition amax :: "real list \<Rightarrow> real" where
  "amax xs = fold max (tl xs) (hd xs)"

definition amin :: "real list \<Rightarrow> real" where
  "amin xs = fold min (tl xs) (hd xs)"

definition clamp_r :: "real \<Rightarrow> real" where
  "clamp_r r = (if 1 < r then 1 else if r < - 1 then - 1 else r)"

definition np_broadcast :: "real list \<Rightarrow> real list \<Rightarrow> (real list \<times> real list) option" where
  "np_broadcast x y =
    (if length x = length y then Some (x, y)
     else if length x = 1 then Some (replicate (length y) (hd x), y)
     else if length y = 1 then Some (x, replicate (length x) (hd y))
     else None)"

definition linregress :: "real list \<Rightarrow> real list \<Rightarrow> pyerror + f64 \<times> f64 \<times> f64" where
  "linregress x0 y0 =
    (case np_broadcast x0 y0 of
       None \<Rightarrow> Inl ValueError
     | Some (x, y) \<Rightarrow>
         if length x \<le> 1 then Inr (NaN, NaN, NaN)
         else if amax x = amin x then Inl ValueError
         else
           let xmean = np_mean x; ymean = np_mean y;
               ssxm = cov_b1 x x; ssxym = cov_b1 x y; ssym = cov_b1 y y;
               r = (if ssxm = 0 \<or> ssym = 0 then (if ssxym = 0 then NaN else Fin 0)
                    else round64 (clamp_r (ssxym / sqrt (ssxm * ssym))));
               slope = (if ssxm = 0 then inf_sgn ssxym else round64 (ssxym / ssxm));
               intercept = (case slope of
                              Fin s \<Rightarrow> round64 (ymean - s * xmean)
                            | PInf \<Rightarrow> inf_sgn (- xmean)
                            | NInf \<Rightarrow> inf_sgn xmean
                            | NaN \<Rightarrow> NaN)
           in Inr (slope, intercept, r))"

text \<open>
  \<^verbatim>\<open>def fit_linear(H, WVTR)\<close>, lines 37 to 39: no check and no handler of its own, so
  an error of the regression is the error of \<open>fit_linear\<close>; the three results are numpy
  scalars, and \<^verbatim>\<open>r**2\<close> is a binary64 product.
\<close>

definition fit_linear :: "real list \<Rightarrow> real list \<Rightarrow> pyerror + num \<times> num \<times> num" where
  "fit_linear H WVTR =
    (case linregress H WVTR of
       Inl e \<Rightarrow> Inl e
     | Inr (slope, intercept, r) \<Rightarrow>
         Inr (NpFloat slope, NpFloat intercept, NpFloat (fmul r r)))"

text \<open>Lines 44 and 49: the fit of the first series and the coefficient drawn from it.\<close>

definition Ds_1x :: "pyerror + num" where
  "Ds_1x = (case fit_linear H_1x WVTR_1x of
              Inl e \<Rightarrow> Inl e
            | Inr (s1, i1, r1) \<Rightarrow> extract_D s1)"

definition Ds_2x :: "pyerror + num" where
  "Ds_2x = (case fit_linear H_2x WVTR_2x of
              Inl e \<Rightarrow> Inl e
            | Inr (s2, i2, r2) \<Rightarrow> extract_D s2)"

definition Ds_3x :: "pyerror + num" where
  "Ds_3x = (case fit_linear H_3x WVTR_3x of
              Inl e \<Rightarrow> Inl e
            | Inr (s3, i3, r3) \<Rightarrow> extract_D s3)"

definition D_PLA_perm :: "pyerror + num" where
  "D_PLA_perm = (case fit_linear H_PLA WVTR_PLA of
                   Inl e \<Rightarrow> Inl e
                 | Inr (sP, iP, rP) \<Rightarrow> extract_D sP)"

subsection \<open>The impermeable reference curve\<close>

definition Hp :: f64 where "Hp = round64 (625 / 10 ^ 7)"
definition D_PLA_imperm :: f64 where "D_PLA_imperm = round64 (1 / 10 ^ 15)"

text \<open>
  \<^verbatim>\<open>np.linspace(start, stop, num)\<close>, a numpy function, after its implementation: the step
  is the rounded difference over \<open>num - 1\<close>, sample \<open>k\<close> is \<open>k * step + start\<close> with both
  operations rounded (when the step underflows to zero, \<open>k / (num - 1) * delta + start\<close>),
  and the last sample is set to \<open>stop\<close> itself.
\<close>

definition linspace :: "real \<Rightarrow> real \<Rightarrow> nat \<Rightarrow> real list" where
  "linspace start stop num =
    (if num = 0 then [] else if num = 1 then [start]
     else
       let n1 = real (num - 1); delta = rnd (stop - start); step = rnd (delta / n1);
           y = map (\<lambda>k. if step = 0 then rnd (rnd (real k / n1) * delta)
                        else rnd (real k * step)) [0..<num];
           y = map (\<lambda>v. rnd (v + start)) y
       in y[num - 1 := stop])"

text \<open>Line 70: \<^verbatim>\<open>Hfit_P = np.linspace(H_PLA.min(), H_PLA.max(), 200)\<close>.\<close>

definition Hfit_P :: "real list" where
  "Hfit_P = linspace (amin H_PLA) (amax H_PLA) 200"

text \<open>
  Line 76: \<^verbatim>\<open>Mw * (Ci - Co) / (Hp / D_PLA_imperm + Hfit_P / D_PLA_imperm)\<close>, computed
  sample by sample; \<open>imperm H\<close> is the value at thickness \<open>H\<close>.
\<close>

definition imperm :: "real \<Rightarrow> f64" where
  "imperm H = fdiv (fmul Mw (fsub Ci Co))
                   (fadd (fdiv Hp D_PLA_imperm) (fdiv (Fin H) D_PLA_imperm))"

definition WVTR_PLA_imperm :: "f64 list" where
  "WVTR_PLA_imperm = map imperm Hfit_P"

subsection \<open>The printed text\<close>

text \<open>
  The format \<^verbatim>\<open>.2e\<close> of a float: the decimal exponent \<open>ilog10\<close> of the magnitude, three
  significant digits rounded from the exact value (ties to even), and an exponent of at
  least two digits with its sign.
\<close>

function ilog10 :: "real \<Rightarrow> int" where
  "ilog10 x = (if x \<le> 0 then 0 else if 10 \<le> x then ilog10 (x / 10) + 1
               else if x < 1 then ilog10 (10 * x) - 1 else 0)"
  by pat_completeness auto
termination
proof (relation "measure (\<lambda>x. if 1 \<le> x then nat \<lceil>x\<rceil> else nat \<lceil>1 / x\<rceil> + 10)")
  show "wf (measure (\<lambda>x::real. if 1 \<le> x then nat \<lceil>x\<rceil> else nat \<lceil>1 / x\<rceil> + 10))"
    by simp
next
  fix x :: real
  assume "\<not> x \<le> 0" and "10 \<le> x"
  then have "\<lceil>x / 10\<rceil> < \<lceil>x\<rceil>" and "0 < \<lceil>x\<rceil>"
    by linarith+
  with \<open>10 \<le> x\<close>
  show "(x / 10, x) \<in> measure (\<lambda>x. if 1 \<le> x then nat \<lceil>x\<rceil> else nat \<lceil>1 / x\<rceil> + 10)"
    by simp
next
  fix x :: real
  assume pos: "\<not> x \<le> 0" and "\<not> 10 \<le> x" and lt: "x < 1"
  then have inv: "1 < 1 / x" by simp
  show "(10 * x, x) \<in> measure (\<lambda>x. if 1 \<le> x then nat \<lceil>x\<rceil> else nat \<lceil>1 / x\<rceil> + 10)"
  proof (cases "1 \<le> 10 * x")
    case True
    have "\<lceil>10 * x\<rceil> \<le> 10" using lt by linarith
    moreover have "2 \<le> \<lceil>1 / x\<rceil>" using inv by linarith
    ultimately have "nat \<lceil>10 * x\<rceil> < nat \<lceil>1 / x\<rceil> + 10" by linarith
    then show ?thesis using True lt by simp
  next
    case False
    then have "10 < 1 / x" using pos by (simp add: field_simps)
    moreover have "1 / (10 * x) = (1 / x) / 10" by simp
    ultimately have "\<lceil>1 / (10 * x)\<rceil> < \<lceil>1 / x\<rceil>" by linarith
    moreover have "0 < \<lceil>1 / x\<rceil>" using inv by linarith
    ultimately have "nat \<lceil>1 / (10 * x)\<rceil> + 10 < nat \<lceil>1 / x\<rceil> + 10" by linarith
    then show ?thesis using False lt by simp
  qed
qed

declare ilog10.simps [simp del]

definition digit :: "int \<Rightarrow> char" where
  "digit d = ''0123456789'' ! nat d"

definition exp_digits :: "int \<Rightarrow> string" where
  "exp_digits n =
     (if n < 10 then [digit 0, digit n]
      else if n < 100 then [digit (n div 10), digit (n mod 10)]
      else [digit (n div 100), digit (n div 10 mod 10), digit (n mod 10)])"

fun fmt_2e :: "f64 \<Rightarrow> string" where
  "fmt_2e NaN = ''nan''"
| "fmt_2e PInf = ''inf''"
| "fmt_2e NInf = ''-inf''"
| "fmt_2e (Fin x) =
     (if x = 0 then ''0.00e+00''
      else
        let a = \<bar>x\<bar>; e0 = ilog10 a; m0 = rne (a / 10 powi (e0 - 2));
            m = (if m0 = 1000 then 100 else m0);
            e = (if m0 = 1000 then e0 + 1 else e0)
        in (if x < 0 then ''-'' else [])
           @ [digit (m div 100), CHR ''.'', digit (m div 10 mod 10), digit (m mod 10), CHR ''e'']
           @ (if e < 0 then ''-'' else ''+'') @ exp_digits \<bar>e\<bar>)"

text \<open>
  Lines 44 to 62, as far as the printed text goes: the four fits, the four coefficients,
  then six lines. A failing call ends the script before anything is printed. The text is
  in UTF-8, so the multiplication sign and the superscript two are two bytes each.
\<close>

definition then_do :: "pyerror + 'a \<Rightarrow> ('a \<Rightarrow> pyerror + 'b) \<Rightarrow> pyerror + 'b" where
  "then_do m f = (case m of Inl e \<Rightarrow> Inl e | Inr v \<Rightarrow> f v)"

definition times_sign :: string where
  "times_sign = [CHR 0xC3, CHR 0x97]"

definition superscript_two :: string where
  "superscript_two = [CHR 0xC2, CHR 0xB2]"

definition printed :: "pyerror + string list" where
  "printed =
    then_do (fit_linear H_1x WVTR_1x) (\<lambda>(s1, i1, r1).
    then_do (fit_linear H_2x WVTR_2x) (\<lambda>(s2, i2, r2).
    then_do (fit_linear H_3x WVTR_3x) (\<lambda>(s3, i3, r3).
    then_do (fit_linear H_PLA WVTR_PLA) (\<lambda>(sP, iP, rP).
    then_do (extract_D s1) (\<lambda>d1.
    then_do (extract_D s2) (\<lambda>d2.
    then_do (extract_D s3) (\<lambda>d3.
    then_do (extract_D sP) (\<lambda>dP.
      Inr [''Extracted diffusion coefficients (linear regression):'',
           ''Biopolymer-1 Ds (1'' @ times_sign @ '') = '' @ fmt_2e (value_of d1)
             @ '' m'' @ superscript_two @ ''/s'',
           ''Biopolymer-1 Ds (2'' @ times_sign @ '') = '' @ fmt_2e (value_of d2)
             @ '' m'' @ superscript_two @ ''/s'',
           ''Biopolymer-1 Ds (3'' @ times_sign @ '') = '' @ fmt_2e (value_of d3)
             @ '' m'' @ superscript_two @ ''/s'',
           ''PLA Ds (permeable) = '' @ fmt_2e (value_of dP)
             @ '' m'' @ superscript_two @ ''/s'',
           ''PLA Ds (impermeable) = '' @ fmt_2e D_PLA_imperm
             @ '' m'' @ superscript_two @ ''/s'']))))))))"

subsection \<open>Refitting the fitted line\<close>

text \<open>
  Lines 72 to 75 evaluate a fitted line on an array, \<^verbatim>\<open>s1 * Hfit_1 + i1\<close>: a binary64
  product and a binary64 sum for each element. \<open>refit\<close> fits a series, evaluates the
  fitted line on the thicknesses of the series in this way, and fits the thicknesses
  against these predicted values; when the first fit has no finite line, the predicted
  values are NaN and so are the results of the second fit.
\<close>

definition predicted :: "real \<Rightarrow> real \<Rightarrow> real list \<Rightarrow> real list" where
  "predicted slope intercept x = map (\<lambda>a. rnd (rnd (slope * a) + intercept)) x"

definition refit :: "real list \<Rightarrow> real list \<Rightarrow> pyerror + num \<times> num \<times> num" where
  "refit x y =
    then_do (fit_linear x y) (\<lambda>(slope, intercept, r2).
      case (value_of slope, value_of intercept) of
        (Fin s, Fin i) \<Rightarrow> fit_linear x (predicted s i x)
      | _ \<Rightarrow> Inr (NpFloat NaN, NpFloat NaN, NpFloat NaN))"

text \<open>
  For comparing two fits: the slope and the intercept of a result (NaN for a fit that
  raised), and agreement of two finite numbers within a relative tolerance.
\<close>

definition slope_of :: "pyerror + num \<times> num \<times> num \<Rightarrow> f64" where
  "slope_of res = (case res of Inl e \<Rightarrow> NaN | Inr (slope, intercept, r2) \<Rightarrow> value_of slope)"

definition intercept_of :: "pyerror + num \<times> num \<times> num \<Rightarrow> f64" where
  "intercept_of res =
     (case res of Inl e \<Rightarrow> NaN | Inr (slope, intercept, r2) \<Rightarrow> value_of intercept)"

fun agree :: "real \<Rightarrow> f64 \<Rightarrow> f64 \<Rightarrow> bool" where
  "agree tol (Fin a) (Fin b) = (\<bar>a - b\<bar> \<le> tol * \<bar>b\<bar>)"
| "agree tol a b = False"

section \<open>Facts about rounding\<close>

lemma ilog2_bounds: "0 < x \<Longrightarrow> 2 powi ilog2 x \<le> x \<and> x < 2 powi (ilog2 x + 1)"
proof (induction x rule: ilog2.induct)
  case (1 x)
  show ?case
  proof (cases "2 \<le> x")
    case True
    then have e: "ilog2 x = ilog2 (x / 2) + 1"
      using 1(3) by (simp add: ilog2.simps[of x])
    have "2 powi ilog2 (x / 2) \<le> x / 2 \<and> x / 2 < 2 powi (ilog2 (x / 2) + 1)"
      using 1(1) 1(3) True by simp
    then show ?thesis unfolding e by (simp add: power_int_add)
  next
    case False
    show ?thesis
    proof (cases "x < 1")
      case True
      then have e: "ilog2 x = ilog2 (2 * x) - 1"
        using 1(3) False by (simp add: ilog2.simps[of x])
      have "2 powi ilog2 (2 * x) \<le> 2 * x \<and> 2 * x < 2 powi (ilog2 (2 * x) + 1)"
        using 1(2) 1(3) True False by simp
      then show ?thesis unfolding e by (simp add: power_int_add power_int_diff)
    next
      case F2: False
      then have "ilog2 x = 0"
        using False 1(3) by (simp add: ilog2.simps[of x])
      then show ?thesis using False F2 by simp
    qed
  qed
qed

lemma rne_int [simp]: "rne (of_int n) = n"
  by (simp add: rne_def)

lemma rne_mono: "x \<le> y \<Longrightarrow> rne x \<le> rne y"
proof -
  assume xy: "x \<le> y"
  have fl: "\<lfloor>x\<rfloor> \<le> \<lfloor>y\<rfloor>" using xy by (rule floor_mono)
  have ux: "rne x \<le> \<lfloor>x\<rfloor> + 1" by (simp add: rne_def Let_def)
  have ly: "\<lfloor>y\<rfloor> \<le> rne y" by (simp add: rne_def Let_def)
  show ?thesis
  proof (cases "\<lfloor>x\<rfloor> = \<lfloor>y\<rfloor>")
    case True
    then have "x - of_int \<lfloor>x\<rfloor> \<le> y - of_int \<lfloor>y\<rfloor>" using xy by simp
    then show ?thesis using True by (auto simp: rne_def Let_def)
  next
    case False
    then have "\<lfloor>x\<rfloor> + 1 \<le> \<lfloor>y\<rfloor>" using fl by linarith
    then show ?thesis using ux ly by linarith
  qed
qed

lemma rne_ge: "of_int n \<le> y \<Longrightarrow> n \<le> rne y"
  using rne_mono[of "of_int n" y] by simp

lemma rne_le: "y \<le> of_int n \<Longrightarrow> rne y \<le> n"
  using rne_mono[of y "of_int n"] by simp

lemma ilog2_mono: "0 < x \<Longrightarrow> x \<le> y \<Longrightarrow> ilog2 x \<le> ilog2 y"
proof (rule ccontr)
  assume x: "0 < x" and xy: "x \<le> y" and "\<not> ilog2 x \<le> ilog2 y"
  then have "ilog2 y + 1 \<le> ilog2 x" by simp
  then have "(2::real) powi (ilog2 y + 1) \<le> 2 powi ilog2 x"
    by (rule power_int_increasing) simp
  also have "2 powi ilog2 x \<le> x" using ilog2_bounds[OF x] by simp
  also have "x \<le> y" by fact
  also have "y < 2 powi (ilog2 y + 1)" using ilog2_bounds[of y] x xy by simp
  finally show False by simp
qed

lemma quantum_pos: "0 < quantum x"
  by (simp add: quantum_def zero_less_power_int)

lemma quantum_shift: "(2::real) powi (e - 52) * 2 ^ 52 = 2 powi e"
proof -
  have "(2::real) powi e = 2 powi ((e - 52) + 52)" by simp
  also have "\<dots> = 2 powi (e - 52) * 2 powi 52" by (rule power_int_add) simp
  finally show ?thesis by simp
qed

lemma rnd_normal:
  assumes x: "0 < x" and n: "- 1022 \<le> ilog2 x"
  shows "2 powi ilog2 x \<le> rnd x" and "rnd x \<le> 2 powi (ilog2 x + 1)"
proof -
  define q :: real where "q = 2 powi (ilog2 x - 52)"
  have q: "0 < q" by (simp add: q_def zero_less_power_int)
  have qx: "quantum x = q" using x n by (simp add: quantum_def q_def max_def)
  have lo: "q * 2 ^ 52 = 2 powi ilog2 x" unfolding q_def by (rule quantum_shift)
  have "q * 2 ^ 53 = 2 * (q * 2 ^ 52)" by simp
  also have "\<dots> = 2 powi (ilog2 x + 1)" unfolding lo by (simp add: power_int_add)
  finally have hi: "q * 2 ^ 53 = 2 powi (ilog2 x + 1)" .
  have "q * 2 ^ 52 \<le> x" using ilog2_bounds[OF x] lo by simp
  then have "of_int (2 ^ 52) \<le> x / q" using q by (simp add: field_simps)
  then have "2 ^ 52 \<le> rne (x / q)" by (rule rne_ge)
  then have "(of_int (2 ^ 52) :: real) \<le> of_int (rne (x / q))" by (simp only: of_int_le_iff)
  then have "(2::real) ^ 52 \<le> of_int (rne (x / q))" by simp
  then have "2 ^ 52 * q \<le> of_int (rne (x / q)) * q" using q by simp
  then show "2 powi ilog2 x \<le> rnd x" using lo by (simp add: rnd_def qx mult.commute)
  have "x \<le> q * 2 ^ 53" using ilog2_bounds[OF x] hi by simp
  then have "x / q \<le> of_int (2 ^ 53)" using q by (simp add: field_simps)
  then have "rne (x / q) \<le> 2 ^ 53" by (rule rne_le)
  then have "(of_int (rne (x / q)) :: real) \<le> of_int (2 ^ 53)" by (simp only: of_int_le_iff)
  then have "of_int (rne (x / q)) \<le> (2::real) ^ 53" by simp
  then have "of_int (rne (x / q)) * q \<le> 2 ^ 53 * q" using q by simp
  then show "rnd x \<le> 2 powi (ilog2 x + 1)" using hi by (simp add: rnd_def qx mult.commute)
qed

lemma rnd_subnormal:
  assumes x: "0 < x" and n: "ilog2 x < - 1022"
  shows "0 \<le> rnd x" and "rnd x \<le> 2 powi (- 1022)"
proof -
  define e0 :: int where "e0 = - 1022"
  define q :: real where "q = 2 powi (e0 - 52)"
  have q: "0 < q" by (simp add: q_def zero_less_power_int)
  have "max (ilog2 \<bar>x\<bar>) (- 1022) = e0" using x n by (simp add: e0_def max_def)
  then have qx: "quantum x = q" by (simp only: quantum_def q_def)
  have lo: "q * 2 ^ 52 = 2 powi e0" unfolding q_def by (rule quantum_shift)
  have r: "rnd x = of_int (rne (x / q)) * q" by (simp only: rnd_def qx)
  have "of_int 0 \<le> x / q" using x q by simp
  then have "0 \<le> rne (x / q)" by (rule rne_ge)
  then show "0 \<le> rnd x" using q by (simp add: r)
  have "ilog2 x + 1 \<le> e0" using n by (simp add: e0_def)
  then have "(2::real) powi (ilog2 x + 1) \<le> 2 powi e0"
    by (rule power_int_increasing) simp
  then have "x \<le> q * 2 ^ 52" using ilog2_bounds[OF x] lo by simp
  then have "x / q \<le> of_int (2 ^ 52)" using q by (simp add: field_simps)
  then have "rne (x / q) \<le> 2 ^ 52" by (rule rne_le)
  then have "(of_int (rne (x / q)) :: real) \<le> of_int (2 ^ 52)" by (simp only: of_int_le_iff)
  then have "of_int (rne (x / q)) \<le> (2::real) ^ 52" by simp
  then have "of_int (rne (x / q)) * q \<le> 2 ^ 52 * q" using q by simp
  then have "rnd x \<le> 2 powi e0" using lo by (simp add: r mult.commute)
  then show "rnd x \<le> 2 powi (- 1022)" by (simp only: e0_def)
qed

lemma rnd_nonneg: "0 < x \<Longrightarrow> 0 \<le> rnd x"
proof (cases "- 1022 \<le> ilog2 x")
  case True
  assume "0 < x"
  then have "2 powi ilog2 x \<le> rnd x" using True by (rule rnd_normal(1))
  moreover have "(0::real) < 2 powi ilog2 x" by (simp add: zero_less_power_int)
  ultimately show ?thesis by linarith
next
  case False
  assume "0 < x"
  then show ?thesis using False by (intro rnd_subnormal(1)) simp_all
qed

lemma rnd_mono_pos:
  assumes x: "0 < x" and xy: "x \<le> y"
  shows "rnd x \<le> rnd y"
proof -
  have y: "0 < y" using x xy by simp
  define ex where "ex = max (ilog2 x) (- 1022)"
  define ey where "ey = max (ilog2 y) (- 1022)"
  have le: "ex \<le> ey" using ilog2_mono[OF x xy] by (simp add: ex_def ey_def)
  have qx: "quantum x = 2 powi (ex - 52)" using x by (simp add: quantum_def ex_def)
  have qy: "quantum y = 2 powi (ey - 52)" using y by (simp add: quantum_def ey_def)
  show ?thesis
  proof (cases "ex = ey")
    case True
    then have same: "quantum y = quantum x" by (simp add: qx qy)
    have "x / quantum x \<le> y / quantum x"
      using xy quantum_pos[of x] by (simp add: divide_right_mono)
    then have "rne (x / quantum x) \<le> rne (y / quantum x)" by (rule rne_mono)
    then have "(of_int (rne (x / quantum x)) :: real) \<le> of_int (rne (y / quantum x))"
      by simp
    then show ?thesis
      using quantum_pos[of x] by (simp add: rnd_def same)
  next
    case False
    then have lt: "ex < ey" using le by simp
    then have ny: "- 1022 \<le> ilog2 y" and ey: "ey = ilog2 y"
      by (auto simp: ex_def ey_def max_def split: if_splits)
    have up: "rnd x \<le> 2 powi (ex + 1)"
    proof (cases "- 1022 \<le> ilog2 x")
      case True
      then have "ex = ilog2 x" by (simp add: ex_def)
      then show ?thesis using rnd_normal(2)[OF x True] by simp
    next
      case False
      then have sub: "ilog2 x < - 1022" and e: "ex = - 1022" by (simp_all add: ex_def)
      have "(2::real) powi (- 1022) \<le> 2 powi (- 1022 + 1)"
        by (rule power_int_increasing) simp_all
      then show ?thesis using rnd_subnormal(2)[OF x sub] unfolding e by linarith
    qed
    have "ex + 1 \<le> ey" using lt by simp
    then have "(2::real) powi (ex + 1) \<le> 2 powi ey"
      by (rule power_int_increasing) simp
    also have "\<dots> \<le> rnd y" using rnd_normal(1)[OF y ny] by (simp add: ey)
    finally show ?thesis using up by linarith
  qed
qed

lemma round64_mono_pos:
  assumes x: "0 < x" and xy: "x \<le> y"
  shows "f64_le (round64 x) (round64 y)"
proof -
  have "0 \<le> rnd x" using x by (rule rnd_nonneg)
  moreover have "rnd x \<le> rnd y" using x xy by (rule rnd_mono_pos)
  ultimately show ?thesis by (simp add: round64_def Let_def)
qed

lemma rnd_pos:
  assumes x: "2 powi (- 1074) \<le> x"
  shows "0 < rnd x"
proof -
  have xpos: "0 < x" using x zero_less_power_int[of "2::real" "- 1074"] by linarith
  show ?thesis
  proof (cases "- 1022 \<le> ilog2 x")
    case True
    have "(0::real) < 2 powi ilog2 x" by (simp add: zero_less_power_int)
    then show ?thesis
      using rnd_normal(1)[OF xpos True] by linarith
  next
    case False
    then have qx: "quantum x = 2 powi (- 1074)" using xpos by (simp add: quantum_def max_def)
    have q: "(0::real) < 2 powi (- 1074)" by (simp add: zero_less_power_int)
    have "of_int 1 \<le> x / 2 powi (- 1074)" using x q by (simp add: field_simps)
    then have "1 \<le> rne (x / 2 powi (- 1074))" by (rule rne_ge)
    then have "(0::real) < of_int (rne (x / 2 powi (- 1074)))" by linarith
    then show ?thesis using q unfolding rnd_def qx by (rule mult_pos_pos)
  qed
qed

lemma round64_pos: "2 powi (- 1074) \<le> x \<Longrightarrow> f64_lt (Fin 0) (round64 x)"
  using rnd_pos[of x] by (simp add: round64_def Let_def)

lemmas round64_eval =
  round64_def rnd_def quantum_def rne_def ilog2.simps Let_def power_int_minus

lemma Mw_val: "Mw = Fin (5070850518435947 / 2 ^ 48)"
  by (simp add: Mw_def round64_eval)

lemma Ci_val: "Ci = Fin (2476979795053773 / 2 ^ 51)"
  by (simp add: Ci_def round64_eval)

lemma Co_val: "Co = Fin (2476979795053773 / 2 ^ 52)"
  by (simp add: Co_def round64_eval)

lemma Ci_minus_Co: "fsub Ci Co = Fin (2476979795053773 / 2 ^ 52)"
  by (simp add: fsub_def Ci_val Co_val round64_eval)

lemma Mw_Ci_Co: "fmul Mw (fsub Ci Co) = Fin (2788967785139771 / 2 ^ 48)"
  by (simp add: Ci_minus_Co Mw_val round64_eval)

section \<open>The diffusion coefficient\<close>

lemma c64_pos_quot:
  fixes s :: real
  assumes "s \<noteq> 0" and "\<bar>s\<bar> < 2 ^ 1024"
  shows "2 powi (- 1074) \<le> (2788967785139771 / 2 ^ 48) / \<bar>s\<bar>"
proof -
  have "(2::real) powi (- 1074) \<le> 2 powi (- 1024)"
    by (rule power_int_increasing) simp_all
  also have "\<dots> = 1 / 2 ^ 1024" by (simp add: power_int_minus divide_simps)
  also have "\<dots> \<le> 1 / \<bar>s\<bar>"
    using assms by (intro divide_left_mono) simp_all
  also have "\<dots> \<le> (2788967785139771 / 2 ^ 48) / \<bar>s\<bar>"
    using assms by (intro divide_right_mono) simp_all
  finally show ?thesis .
qed

lemma extract_D_np: "s \<noteq> 0 \<Longrightarrow>
  extract_D (NpFloat (Fin s)) = Inr (NpFloat (round64 ((2788967785139771 / 2 ^ 48) / \<bar>s\<bar>)))"
  by (simp add: extract_D_def Mw_Ci_Co)

lemma extract_D_py: "s \<noteq> 0 \<Longrightarrow>
  extract_D (PyFloat (Fin s)) = Inr (PyFloat (round64 ((2788967785139771 / 2 ^ 48) / \<bar>s\<bar>)))"
  by (simp add: extract_D_def Mw_Ci_Co)

text \<open>
  C1: for every nonzero slope \<open>s\<close> (every finite binary64 number is below \<open>2\<^sup>1\<^sup>0\<^sup>2\<^sup>4\<close> in
  magnitude), of either kind, \<open>extract_D\<close> returns \<open>Mw * (Ci - Co) / |s|\<close>, computed in
  binary64 from the constants 18.01528, 1.1 and 0.55, and the result is strictly positive.
\<close>

theorem extract_D_formula_positive:
  assumes "s \<noteq> 0" and "\<bar>s\<bar> < 2 ^ 1024"
  shows "Mw = round64 (1801528 / 100000) \<and> Ci = round64 (11 / 10) \<and> Co = round64 (55 / 100) \<and>
    extract_D (NpFloat (Fin s)) = Inr (NpFloat (fdiv (fmul Mw (fsub Ci Co)) (Fin \<bar>s\<bar>))) \<and>
    extract_D (PyFloat (Fin s)) = Inr (PyFloat (fdiv (fmul Mw (fsub Ci Co)) (Fin \<bar>s\<bar>))) \<and>
    f64_lt (Fin 0) (returned (extract_D (NpFloat (Fin s)))) \<and>
    f64_lt (Fin 0) (returned (extract_D (PyFloat (Fin s))))"
proof -
  have pos: "f64_lt (Fin 0) (round64 ((2788967785139771 / 2 ^ 48) / \<bar>s\<bar>))"
    using c64_pos_quot[OF assms] by (rule round64_pos)
  have "extract_D (NpFloat (Fin s)) = Inr (NpFloat (fdiv (fmul Mw (fsub Ci Co)) (Fin \<bar>s\<bar>)))"
    using assms(1) by (simp add: extract_D_def)
  moreover have "extract_D (PyFloat (Fin s)) = Inr (PyFloat (fdiv (fmul Mw (fsub Ci Co)) (Fin \<bar>s\<bar>)))"
    using assms(1) by (simp add: extract_D_def)
  moreover have "f64_lt (Fin 0) (returned (extract_D (NpFloat (Fin s))))"
    using pos assms(1) by (simp add: extract_D_np)
  moreover have "f64_lt (Fin 0) (returned (extract_D (PyFloat (Fin s))))"
    using pos assms(1) by (simp add: extract_D_py)
  ultimately show ?thesis by (simp add: Mw_def Ci_def Co_def)
qed

text \<open>The slope \<open>-15\<close>: the coefficient is \<open>0.6605602666666667\<close>.\<close>

theorem extract_D_formula_positive_witness:
  "(- 15::real) \<noteq> 0 \<and> \<bar>- 15::real\<bar> < 2 ^ 1024 \<and>
   extract_D (NpFloat (Fin (- 15))) = Inr (NpFloat (Fin (5949797941631511 / 2 ^ 53))) \<and>
   f64_lt (Fin 0) (returned (extract_D (NpFloat (Fin (- 15)))))"
proof -
  have a: "(- 15::real) \<noteq> 0" by simp
  have b: "\<bar>- 15::real\<bar> < 2 ^ 1024" by simp
  have "extract_D (NpFloat (Fin (- 15))) = Inr (NpFloat (Fin (5949797941631511 / 2 ^ 53)))"
    by (simp add: extract_D_np round64_eval)
  then show ?thesis using extract_D_formula_positive[OF a b] by simp
qed

text \<open>
  C5, as binary64 has it: for nonzero slopes with \<open>|s1| < |s2|\<close> the coefficient of
  \<open>s2\<close> is at most that of \<open>s1\<close>: \<open>extract_D\<close> is monotonically non-increasing in
  the absolute value of the slope.
\<close>

theorem extract_D_nonincreasing:
  assumes "s1 \<noteq> 0" and "\<bar>s1\<bar> < \<bar>s2\<bar>"
  shows "f64_le (returned (extract_D (NpFloat (Fin s2)))) (returned (extract_D (NpFloat (Fin s1)))) \<and>
         f64_le (returned (extract_D (PyFloat (Fin s2)))) (returned (extract_D (PyFloat (Fin s1))))"
proof -
  have s2: "s2 \<noteq> 0" using assms by auto
  have "0 < (2788967785139771 / 2 ^ 48) / \<bar>s2\<bar>" using s2 by simp
  moreover have "(2788967785139771 / 2 ^ 48) / \<bar>s2\<bar> \<le> (2788967785139771 / 2 ^ 48) / \<bar>s1\<bar>"
    using assms by (intro divide_left_mono) (simp_all add: less_imp_le)
  ultimately have "f64_le (round64 ((2788967785139771 / 2 ^ 48) / \<bar>s2\<bar>))
     (round64 ((2788967785139771 / 2 ^ 48) / \<bar>s1\<bar>))"
    by (rule round64_mono_pos)
  then show ?thesis using assms(1) s2 by (simp add: extract_D_np extract_D_py)
qed

text \<open>The slopes 15 and 16.\<close>

theorem extract_D_nonincreasing_witness:
  "(15::real) \<noteq> 0 \<and> \<bar>15::real\<bar> < \<bar>16\<bar> \<and>
   f64_le (returned (extract_D (NpFloat (Fin 16)))) (returned (extract_D (NpFloat (Fin 15))))"
proof -
  have a: "(15::real) \<noteq> 0" by simp
  have b: "\<bar>15::real\<bar> < \<bar>16\<bar>" by simp
  show ?thesis using extract_D_nonincreasing[OF a b] by simp
qed

text \<open>
  C5 as stated, with a strict inequality, fails: 15 and the next binary64 number after
  it, \<open>15 + 2\<^sup>-\<^sup>4\<^sup>9\<close>, have quotients that round to the same coefficient.
\<close>

theorem extract_D_not_strict:
  "\<bar>15::real\<bar> < \<bar>15 + 1 / 2 ^ 49\<bar> \<and>
   \<not> f64_lt (returned (extract_D (NpFloat (Fin (15 + 1 / 2 ^ 49)))))
             (returned (extract_D (NpFloat (Fin 15))))"
  by (simp add: extract_D_np round64_eval)


text \<open>
  C10: \<open>extract_D\<close> is even: a slope and its negation give the same result, for a slope
  of either kind (the statement holds at zero too, where both sides are the same error
  or the same infinity).
\<close>

theorem extract_D_even:
  "extract_D (NpFloat (Fin (- s))) = extract_D (NpFloat (Fin s)) \<and>
   extract_D (PyFloat (Fin (- s))) = extract_D (PyFloat (Fin s))"
  by (simp add: extract_D_def)

section \<open>The regression\<close>

lemma rnd_0: "rnd 0 = 0"
  using rne_int[of 0] by (simp add: rnd_def)

lemma rnd_1: "rnd 1 = 1"
  by (simp add: round64_eval)

lemma round64_0: "round64 0 = Fin 0"
  by (simp add: round64_def rnd_0)

lemma rne_minus: "rne (- y) = - rne y"
proof (cases "y = of_int \<lfloor>y\<rfloor>")
  case True
  then have "rne y = \<lfloor>y\<rfloor>" using rne_int[of "\<lfloor>y\<rfloor>"] by simp
  moreover have "- y = of_int (- \<lfloor>y\<rfloor>)" using True by simp
  then have "rne (- y) = - \<lfloor>y\<rfloor>" using rne_int[of "- \<lfloor>y\<rfloor>"] by simp
  ultimately show ?thesis by simp
next
  case False
  then have "\<lceil>y\<rceil> = \<lfloor>y\<rfloor> + 1" by (simp add: ceiling_altdef)
  then have fl: "\<lfloor>- y\<rfloor> = - \<lfloor>y\<rfloor> - 1" by (simp add: floor_minus)
  show ?thesis
    unfolding rne_def Let_def fl by (auto simp: field_simps)
qed

lemma rnd_minus: "rnd (- x) = - rnd x"
  by (simp add: rnd_def quantum_def rne_minus)

lemma rnd_unit:
  assumes "0 \<le> x" and "x \<le> 1"
  shows "0 \<le> rnd x \<and> rnd x \<le> 1"
proof (cases "x = 0")
  case True
  then show ?thesis by (simp add: rnd_0)
next
  case False
  then have x: "0 < x" using assms by simp
  have lo: "0 \<le> rnd x" using x by (rule rnd_nonneg)
  have "rnd x \<le> rnd 1" using x assms(2) by (rule rnd_mono_pos)
  then show ?thesis using lo by (simp add: rnd_1)
qed

lemma round64_abs_unit:
  assumes "\<bar>x\<bar> \<le> 1"
  shows "\<exists>v. round64 x = Fin v \<and> \<bar>v\<bar> \<le> 1"
proof -
  have "\<bar>rnd x\<bar> \<le> 1"
  proof (cases "0 \<le> x")
    case True
    then show ?thesis using rnd_unit[of x] assms by simp
  next
    case False
    then have "0 \<le> rnd (- x) \<and> rnd (- x) \<le> 1" using assms by (intro rnd_unit) simp_all
    then show ?thesis by (simp add: rnd_minus)
  qed
  moreover have "(1::real) < 2 ^ 1024" by simp
  ultimately have "rnd x < 2 ^ 1024" and "- (2 ^ 1024) < rnd x" by linarith+
  then show ?thesis using \<open>\<bar>rnd x\<bar> \<le> 1\<close> by (simp add: round64_def Let_def)
qed

lemma round64_unit:
  assumes "0 \<le> x" and "x \<le> 1"
  shows "\<exists>v. round64 x = Fin v \<and> 0 \<le> v \<and> v \<le> 1"
proof -
  have r: "0 \<le> rnd x \<and> rnd x \<le> 1" using assms by (rule rnd_unit)
  moreover have "(1::real) < 2 ^ 1024" by simp
  ultimately have "rnd x < 2 ^ 1024" by linarith
  then show ?thesis using r by (simp add: round64_def Let_def)
qed

lemma clamp_r_range: "\<bar>clamp_r r\<bar> \<le> 1"
  by (auto simp: clamp_r_def)

text \<open>
  The fit of a series of two or more points with equal lengths and thicknesses that are
  not all the same: the least-squares slope and the intercept, rounded, and some \<open>R\<^sup>2\<close>;
  when the transmission rates are not all the same either, \<open>R\<^sup>2\<close> is a number between 0
  and 1.
\<close>

lemma fit_linear_regular:
  assumes "length x = length y" and "2 \<le> length x" and "amax x \<noteq> amin x"
    and "cov_b1 x x \<noteq> 0" and "round64 (cov_b1 x y / cov_b1 x x) = Fin s"
  shows "\<exists>r. fit_linear x y =
    Inr (NpFloat (Fin s), NpFloat (round64 (np_mean y - s * np_mean x)), NpFloat r)"
  using assms by (simp add: fit_linear_def linregress_def np_broadcast_def Let_def)

lemma fit_linear_r2:
  assumes "length x = length y" and "2 \<le> length x" and "amax x \<noteq> amin x"
    and "cov_b1 x x \<noteq> 0" and "cov_b1 y y \<noteq> 0"
  shows "\<exists>s i v. fit_linear x y = Inr (s, i, NpFloat (Fin v)) \<and> 0 \<le> v \<and> v \<le> 1"
proof -
  obtain \<rho> where r: "round64 (clamp_r (cov_b1 x y / sqrt (cov_b1 x x * cov_b1 y y))) = Fin \<rho>"
    and b: "\<bar>\<rho>\<bar> \<le> 1"
    using round64_abs_unit[OF clamp_r_range] by blast
  have "0 \<le> \<rho> * \<rho>" by simp
  moreover have "\<rho> * \<rho> \<le> 1"
    using b by (metis abs_mult_self_eq abs_ge_zero mult_le_one)
  ultimately obtain v where v: "round64 (\<rho> * \<rho>) = Fin v" "0 \<le> v" "v \<le> 1"
    using round64_unit by blast
  have "\<exists>s i. fit_linear x y = Inr (s, i, NpFloat (round64 (\<rho> * \<rho>)))"
    using assms by (simp add: fit_linear_def linregress_def np_broadcast_def Let_def r)
  then show ?thesis using v by auto
qed

text \<open>The four series, evaluated: the thicknesses as binary64 numbers, the slope and the
  intercept of the fit, and the coefficient \<open>extract_D\<close> draws from that slope.\<close>

lemma rnd_1e_6: "rnd (1 / 10 ^ 6) = 4722366482869645 / 2 ^ 72"
  by (simp add: round64_eval)

lemma H_1x_val: "H_1x = [8411715297611555 / 2 ^ 67, 1106804644422573 / 2 ^ 64, 4574792530279969 / 2 ^ 66]"
  by (simp add: H_1x_def rnd_1e_6) (simp add: round64_eval)

lemma var_1x: "cov_b1 H_1x H_1x \<noteq> 0" "cov_b1 WVTR_1x WVTR_1x \<noteq> 0"
  by (simp_all add: H_1x_val WVTR_1x_def cov_b1_def np_mean_def)

lemma not_constant_1x: "amax H_1x \<noteq> amin H_1x"
  by (simp add: H_1x_val amax_def amin_def)

lemma lengths_1x: "length H_1x = length WVTR_1x" "2 \<le> length H_1x"
  by (simp_all add: H_1x_def WVTR_1x_def)

lemma slope_1x: "round64 (cov_b1 H_1x WVTR_1x / cov_b1 H_1x H_1x) =
    Fin (- (4952810765473677 / 2 ^ 24))"
proof -
  have "cov_b1 H_1x WVTR_1x / cov_b1 H_1x H_1x =
      - (17450457563972987463478556050099011584 / 59111908310837443225224412489)"
    by (simp add: H_1x_val WVTR_1x_def cov_b1_def np_mean_def)
  moreover have "round64 (- (17450457563972987463478556050099011584 / 59111908310837443225224412489)) =
      Fin (- (4952810765473677 / 2 ^ 24))"
    by (simp add: round64_eval)
  ultimately show ?thesis by (simp only:)
qed

lemma intercept_1x: "round64 (np_mean WVTR_1x - (- (4952810765473677 / 2 ^ 24)) * np_mean H_1x) =
    Fin (345657159574797 / 2 ^ 34)"
proof -
  have "np_mean WVTR_1x - (- (4952810765473677 / 2 ^ 24)) * np_mean H_1x =
      149443339685663994704749145760745 / 7427640235712281649394745344"
    by (simp add: H_1x_val WVTR_1x_def np_mean_def)
  moreover have "round64 (149443339685663994704749145760745 / 7427640235712281649394745344) =
      Fin (345657159574797 / 2 ^ 34)"
    by (simp add: round64_eval)
  ultimately show ?thesis by (simp only:)
qed

lemma fit_1x: "\<exists>r. fit_linear H_1x WVTR_1x =
    Inr (NpFloat (Fin (- (4952810765473677 / 2 ^ 24))), NpFloat (Fin (345657159574797 / 2 ^ 34)), NpFloat r)"
  using fit_linear_regular[OF lengths_1x not_constant_1x var_1x(1) slope_1x]
  by (simp only: intercept_1x)

lemma D_of_slope_1x: "extract_D (NpFloat (Fin (- (4952810765473677 / 2 ^ 24)))) =
    Inr (NpFloat (Fin (5072026722871387 / 2 ^ 77)))"
proof -
  have "extract_D (NpFloat (Fin (- (4952810765473677 / 2 ^ 24)))) =
      Inr (NpFloat (round64 ((2788967785139771 / 2 ^ 48) /
        \<bar>- (4952810765473677 / 2 ^ 24)\<bar>)))"
    by (rule extract_D_np) simp
  also have "\<bar>- (4952810765473677 / 2 ^ 24) :: real\<bar> =
      4952810765473677 / 2 ^ 24"
    by simp
  also have "round64 ((2788967785139771 / 2 ^ 48) / (4952810765473677 / 2 ^ 24)) =
      Fin (5072026722871387 / 2 ^ 77)"
    by (simp add: round64_eval)
  finally show ?thesis .
qed

lemma H_2x_val: "H_2x = [5312662293228351 / 2 ^ 66, 5460236245818027 / 2 ^ 66, 2914585563646109 / 2 ^ 65]"
  by (simp add: H_2x_def rnd_1e_6) (simp add: round64_eval)

lemma var_2x: "cov_b1 H_2x H_2x \<noteq> 0" "cov_b1 WVTR_2x WVTR_2x \<noteq> 0"
  by (simp_all add: H_2x_val WVTR_2x_def cov_b1_def np_mean_def)

lemma not_constant_2x: "amax H_2x \<noteq> amin H_2x"
  by (simp add: H_2x_val amax_def amin_def)

lemma lengths_2x: "length H_2x = length WVTR_2x" "2 \<le> length H_2x"
  by (simp_all add: H_2x_def WVTR_2x_def)

lemma slope_2x: "round64 (cov_b1 H_2x WVTR_2x / cov_b1 H_2x H_2x) =
    Fin (- (3621297545846155 / 2 ^ 25))"
proof -
  have "cov_b1 H_2x WVTR_2x / cov_b1 H_2x H_2x =
      - (22915975717923654205095011012556357632 / 212336196958665298365227941573)"
    by (simp add: H_2x_val WVTR_2x_def cov_b1_def np_mean_def)
  moreover have "round64 (- (22915975717923654205095011012556357632 / 212336196958665298365227941573)) =
      Fin (- (3621297545846155 / 2 ^ 25))"
    by (simp add: round64_eval)
  ultimately show ?thesis by (simp only:)
qed

lemma intercept_2x: "round64 (np_mean WVTR_2x - (- (3621297545846155 / 2 ^ 25)) * np_mean H_2x) =
    Fin (2736289745052699 / 2 ^ 38)"
proof -
  have "np_mean WVTR_2x - (- (3621297545846155 / 2 ^ 25)) * np_mean H_2x =
      6161576738098522143374298273889 / 2 ^ 89"
    by (simp add: H_2x_val WVTR_2x_def np_mean_def)
  moreover have "round64 (6161576738098522143374298273889 / 2 ^ 89) =
      Fin (2736289745052699 / 2 ^ 38)"
    by (simp add: round64_eval)
  ultimately show ?thesis by (simp only:)
qed

lemma fit_2x: "\<exists>r. fit_linear H_2x WVTR_2x =
    Inr (NpFloat (Fin (- (3621297545846155 / 2 ^ 25))), NpFloat (Fin (2736289745052699 / 2 ^ 38)), NpFloat r)"
  using fit_linear_regular[OF lengths_2x not_constant_2x var_2x(1) slope_2x]
  by (simp only: intercept_2x)

lemma D_of_slope_2x: "extract_D (NpFloat (Fin (- (3621297545846155 / 2 ^ 25)))) =
    Inr (NpFloat (Fin (1734239470643791 / 2 ^ 74)))"
proof -
  have "extract_D (NpFloat (Fin (- (3621297545846155 / 2 ^ 25)))) =
      Inr (NpFloat (round64 ((2788967785139771 / 2 ^ 48) /
        \<bar>- (3621297545846155 / 2 ^ 25)\<bar>)))"
    by (rule extract_D_np) simp
  also have "\<bar>- (3621297545846155 / 2 ^ 25) :: real\<bar> =
      3621297545846155 / 2 ^ 25"
    by simp
  also have "round64 ((2788967785139771 / 2 ^ 48) / (3621297545846155 / 2 ^ 25)) =
      Fin (1734239470643791 / 2 ^ 74)"
    by (simp add: round64_eval)
  finally show ?thesis .
qed

lemma H_3x_val: "H_3x = [5386449269523189 / 2 ^ 66, 5607810198407703 / 2 ^ 66, 2914585563646109 / 2 ^ 65]"
  by (simp add: H_3x_def rnd_1e_6) (simp add: round64_eval)

lemma var_3x: "cov_b1 H_3x H_3x \<noteq> 0" "cov_b1 WVTR_3x WVTR_3x \<noteq> 0"
  by (simp_all add: H_3x_val WVTR_3x_def cov_b1_def np_mean_def)

lemma not_constant_3x: "amax H_3x \<noteq> amin H_3x"
  by (simp add: H_3x_val amax_def amin_def)

lemma lengths_3x: "length H_3x = length WVTR_3x" "2 \<le> length H_3x"
  by (simp_all add: H_3x_def WVTR_3x_def)

lemma slope_3x: "round64 (cov_b1 H_3x WVTR_3x / cov_b1 H_3x H_3x) =
    Fin (- (988457642666667 / 2 ^ 23))"
proof -
  have "cov_b1 H_3x WVTR_3x / cov_b1 H_3x H_3x =
      - (17321733605743439084085931001973309440 / 147001982509845257643833702131)"
    by (simp add: H_3x_val WVTR_3x_def cov_b1_def np_mean_def)
  moreover have "round64 (- (17321733605743439084085931001973309440 / 147001982509845257643833702131)) =
      Fin (- (988457642666667 / 2 ^ 23))"
    by (simp add: round64_eval)
  ultimately show ?thesis by (simp only:)
qed

lemma intercept_3x: "round64 (np_mean WVTR_3x - (- (988457642666667 / 2 ^ 23)) * np_mean H_3x) =
    Fin (5910241503171927 / 2 ^ 39)"
proof -
  have "np_mean WVTR_3x - (- (988457642666667 / 2 ^ 23)) * np_mean H_3x =
      9981510536758023429717783304801 / 928455029464035206174343168"
    by (simp add: H_3x_val WVTR_3x_def np_mean_def)
  moreover have "round64 (9981510536758023429717783304801 / 928455029464035206174343168) =
      Fin (5910241503171927 / 2 ^ 39)"
    by (simp add: round64_eval)
  ultimately show ?thesis by (simp only:)
qed

lemma fit_3x: "\<exists>r. fit_linear H_3x WVTR_3x =
    Inr (NpFloat (Fin (- (988457642666667 / 2 ^ 23))), NpFloat (Fin (5910241503171927 / 2 ^ 39)), NpFloat r)"
  using fit_linear_regular[OF lengths_3x not_constant_3x var_3x(1) slope_3x]
  by (simp only: intercept_3x)

lemma D_of_slope_3x: "extract_D (NpFloat (Fin (- (988457642666667 / 2 ^ 23)))) =
    Inr (NpFloat (Fin (6353531874172313 / 2 ^ 76)))"
proof -
  have "extract_D (NpFloat (Fin (- (988457642666667 / 2 ^ 23)))) =
      Inr (NpFloat (round64 ((2788967785139771 / 2 ^ 48) /
        \<bar>- (988457642666667 / 2 ^ 23)\<bar>)))"
    by (rule extract_D_np) simp
  also have "\<bar>- (988457642666667 / 2 ^ 23) :: real\<bar> =
      988457642666667 / 2 ^ 23"
    by simp
  also have "round64 ((2788967785139771 / 2 ^ 48) / (988457642666667 / 2 ^ 23)) =
      Fin (6353531874172313 / 2 ^ 76)"
    by (simp add: round64_eval)
  finally show ?thesis .
qed

lemma H_PLA_val: "H_PLA = [4722366482869645 / 2 ^ 66, 2914585563646109 / 2 ^ 65, 2988372539940947 / 2 ^ 65, 6124319032471571 / 2 ^ 66]"
  by (simp add: H_PLA_def rnd_1e_6) (simp add: round64_eval)

lemma var_PLA: "cov_b1 H_PLA H_PLA \<noteq> 0" "cov_b1 WVTR_PLA WVTR_PLA \<noteq> 0"
  by (simp_all add: H_PLA_val WVTR_PLA_def cov_b1_def np_mean_def)

lemma not_constant_PLA: "amax H_PLA \<noteq> amin H_PLA"
  by (simp add: H_PLA_val amax_def amin_def)

lemma lengths_PLA: "length H_PLA = length WVTR_PLA" "2 \<le> length H_PLA"
  by (simp_all add: H_PLA_def WVTR_PLA_def)

lemma slope_PLA: "round64 (cov_b1 H_PLA WVTR_PLA / cov_b1 H_PLA H_PLA) =
    Fin (- (2966301366816463 / 2 ^ 25))"
proof -
  have "cov_b1 H_PLA WVTR_PLA / cov_b1 H_PLA H_PLA =
      - (54087201657349321241077217383587774464 / 611827695723847216906469641965)"
    by (simp add: H_PLA_val WVTR_PLA_def cov_b1_def np_mean_def)
  moreover have "round64 (- (54087201657349321241077217383587774464 / 611827695723847216906469641965)) =
      Fin (- (2966301366816463 / 2 ^ 25))"
    by (simp add: round64_eval)
  ultimately show ?thesis by (simp only:)
qed

lemma intercept_PLA: "round64 (np_mean WVTR_PLA - (- (2966301366816463 / 2 ^ 25)) * np_mean H_PLA) =
    Fin (4136585336703607 / 2 ^ 39)"
proof -
  have "np_mean WVTR_PLA - (- (2966301366816463 / 2 ^ 25)) * np_mean H_PLA =
      582172630655144463037588274641 / 2 ^ 86"
    by (simp add: H_PLA_val WVTR_PLA_def np_mean_def)
  moreover have "round64 (582172630655144463037588274641 / 2 ^ 86) =
      Fin (4136585336703607 / 2 ^ 39)"
    by (simp add: round64_eval)
  ultimately show ?thesis by (simp only:)
qed

lemma fit_PLA: "\<exists>r. fit_linear H_PLA WVTR_PLA =
    Inr (NpFloat (Fin (- (2966301366816463 / 2 ^ 25))), NpFloat (Fin (4136585336703607 / 2 ^ 39)), NpFloat r)"
  using fit_linear_regular[OF lengths_PLA not_constant_PLA var_PLA(1) slope_PLA]
  by (simp only: intercept_PLA)

lemma D_of_slope_PLA: "extract_D (NpFloat (Fin (- (2966301366816463 / 2 ^ 25)))) =
    Inr (NpFloat (Fin (2117181082545237 / 2 ^ 74)))"
proof -
  have "extract_D (NpFloat (Fin (- (2966301366816463 / 2 ^ 25)))) =
      Inr (NpFloat (round64 ((2788967785139771 / 2 ^ 48) /
        \<bar>- (2966301366816463 / 2 ^ 25)\<bar>)))"
    by (rule extract_D_np) simp
  also have "\<bar>- (2966301366816463 / 2 ^ 25) :: real\<bar> =
      2966301366816463 / 2 ^ 25"
    by simp
  also have "round64 ((2788967785139771 / 2 ^ 48) / (2966301366816463 / 2 ^ 25)) =
      Fin (2117181082545237 / 2 ^ 74)"
    by (simp add: round64_eval)
  finally show ?thesis .
qed

lemma Ds_1x_val: "Ds_1x = Inr (NpFloat (Fin (5072026722871387 / 2 ^ 77)))"
proof -
  obtain i r where "fit_linear H_1x WVTR_1x =
     Inr (NpFloat (Fin (- (4952810765473677 / 2 ^ 24))), i, r)"
    using fit_1x by blast
  then show ?thesis by (simp only: Ds_1x_def sum.case prod.case D_of_slope_1x)
qed

text \<open>
  C3, as the code has it: on the first series the fitted slope is negative (about
  \<open>-2.95e8\<close>) and the coefficient drawn from it is positive and lies between \<open>1e-8\<close> and
  \<open>1e-7\<close> (it is about \<open>3.36e-8\<close>).
\<close>

theorem fit_1x_slope_and_D:
  "(\<exists>s i r. fit_linear H_1x WVTR_1x = Inr (NpFloat (Fin s), i, r) \<and> s < 0) \<and>
   f64_lt (Fin 0) (returned Ds_1x) \<and>
   f64_lt (Fin (1 / 10 ^ 8)) (returned Ds_1x) \<and> f64_lt (returned Ds_1x) (Fin (1 / 10 ^ 7))"
proof -
  have "\<exists>s i r. fit_linear H_1x WVTR_1x = Inr (NpFloat (Fin s), i, r) \<and> s < 0"
    using fit_1x by fastforce
  then show ?thesis by (simp add: Ds_1x_val)
qed

text \<open>
  C3 as stated fails in its upper bound: the coefficient of the first series is not
  at most \<open>1e-9\<close>.
\<close>

theorem Ds_1x_above_1e_9:
  "\<not> f64_le (returned Ds_1x) (Fin (1 / 10 ^ 9))"
  by (simp add: Ds_1x_val)

text \<open>
  C6: for each of the four series \<open>fit_linear\<close> returns, and the \<open>R\<^sup>2\<close> it returns is a
  finite number in the closed interval \<open>[0, 1]\<close>.
\<close>

theorem r2_in_unit_interval:
  "(\<exists>s i v. fit_linear H_1x WVTR_1x = Inr (s, i, NpFloat (Fin v)) \<and> 0 \<le> v \<and> v \<le> 1) \<and>
   (\<exists>s i v. fit_linear H_2x WVTR_2x = Inr (s, i, NpFloat (Fin v)) \<and> 0 \<le> v \<and> v \<le> 1) \<and>
   (\<exists>s i v. fit_linear H_3x WVTR_3x = Inr (s, i, NpFloat (Fin v)) \<and> 0 \<le> v \<and> v \<le> 1) \<and>
   (\<exists>s i v. fit_linear H_PLA WVTR_PLA = Inr (s, i, NpFloat (Fin v)) \<and> 0 \<le> v \<and> v \<le> 1)"
proof -
  have "(\<exists>s i v. fit_linear H_1x WVTR_1x = Inr (s, i, NpFloat (Fin v)) \<and> 0 \<le> v \<and> v \<le> 1)"
    using lengths_1x not_constant_1x var_1x by (rule fit_linear_r2)
  moreover
  have "(\<exists>s i v. fit_linear H_2x WVTR_2x = Inr (s, i, NpFloat (Fin v)) \<and> 0 \<le> v \<and> v \<le> 1)"
    using lengths_2x not_constant_2x var_2x by (rule fit_linear_r2)
  moreover
  have "(\<exists>s i v. fit_linear H_3x WVTR_3x = Inr (s, i, NpFloat (Fin v)) \<and> 0 \<le> v \<and> v \<le> 1)"
    using lengths_3x not_constant_3x var_3x by (rule fit_linear_r2)
  moreover
  have "(\<exists>s i v. fit_linear H_PLA WVTR_PLA = Inr (s, i, NpFloat (Fin v)) \<and> 0 \<le> v \<and> v \<le> 1)"
    using lengths_PLA not_constant_PLA var_PLA by (rule fit_linear_r2)
  ultimately show ?thesis by blast
qed

lemma fold_max_const: "\<forall>v\<in>set xs. v = a \<Longrightarrow> fold max xs (a::real) = a"
  by (induction xs) simp_all

lemma fold_min_const: "\<forall>v\<in>set xs. v = a \<Longrightarrow> fold min xs (a::real) = a"
  by (induction xs) simp_all

lemma amax_amin_constant:
  assumes "x \<noteq> []" and "\<forall>v\<in>set x. v = hd x"
  shows "amax x = amin x"
proof -
  have "\<forall>v\<in>set (tl x). v = hd x"
    using assms by (auto dest: list.set_sel(2))
  then show ?thesis by (simp add: amax_def amin_def fold_max_const fold_min_const)
qed

lemma fit_linear_single: "fit_linear [a] [b] = Inr (NpFloat NaN, NpFloat NaN, NpFloat NaN)"
  by (simp add: fit_linear_def linregress_def np_broadcast_def)

text \<open>
  C8, as the code has it: \<open>fit_linear\<close> fails, with the \<^verbatim>\<open>ValueError\<close> of the regression,
  when the two sequences have two or more points each and differ in length, and when
  \<open>x\<close> has at least two points that are all the same. With a single point it does not
  fail: it returns NaN for the slope and for the intercept.
\<close>

theorem fit_linear_failures:
  "(2 \<le> length x \<and> 2 \<le> length y \<and> length x \<noteq> length y \<longrightarrow> fit_linear x y = Inl ValueError) \<and>
   (1 < length x \<and> (\<forall>v\<in>set x. v = hd x) \<longrightarrow> fit_linear x y = Inl ValueError) \<and>
   (\<exists>r2. fit_linear [a] [b] = Inr (NpFloat NaN, NpFloat NaN, r2))"
proof -
  have "fit_linear x y = Inl ValueError"
    if "2 \<le> length x \<and> 2 \<le> length y \<and> length x \<noteq> length y"
    using that by (simp add: fit_linear_def linregress_def np_broadcast_def)
  moreover have "fit_linear x y = Inl ValueError" if c: "1 < length x \<and> (\<forall>v\<in>set x. v = hd x)"
  proof -
    have "x \<noteq> []" using c by auto
    then have eq: "amax x = amin x" using c by (intro amax_amin_constant) simp_all
    show ?thesis
    proof (cases "np_broadcast x y")
      case None
      then show ?thesis by (simp add: fit_linear_def linregress_def)
    next
      case (Some p)
      then have "fst p = x"
        using c by (auto simp: np_broadcast_def split: if_splits)
      then show ?thesis
        using Some c eq by (cases p) (simp add: fit_linear_def linregress_def)
    qed
  qed
  ultimately show ?thesis using fit_linear_single by blast
qed

text \<open>Mismatched lengths, a constant \<open>x\<close>, a single point.\<close>

theorem fit_linear_failures_witness:
  "2 \<le> length [1, 2, 3 :: real] \<and> 2 \<le> length [4, 5 :: real] \<and>
   length [1, 2, 3 :: real] \<noteq> length [4, 5 :: real] \<and>
   fit_linear [1, 2, 3] [4, 5] = Inl ValueError \<and>
   1 < length [5, 5 :: real] \<and> set [5, 5 :: real] = {hd [5, 5]} \<and>
   fit_linear [5, 5] [1, 2] = Inl ValueError \<and>
   slope_of (fit_linear [1] [2]) = NaN \<and> intercept_of (fit_linear [1] [2]) = NaN"
proof -
  have "slope_of (fit_linear [1] [2]) = NaN \<and> intercept_of (fit_linear [1] [2]) = NaN"
    by (simp add: fit_linear_single slope_of_def intercept_of_def)
  then show ?thesis
    using fit_linear_failures[of "[1, 2, 3]" "[4, 5]" 1 2]
      fit_linear_failures[of "[5, 5]" "[1, 2]" 1 2]
    by simp
qed

text \<open>
  C8 as stated fails for fewer than two points: on one point \<open>fit_linear\<close> returns a
  result and raises nothing.
\<close>

theorem fit_linear_one_point:
  "\<not> isl (fit_linear [1] [2])"
  by (simp add: fit_linear_single)

text \<open>
  C2, as the code has it: \<open>extract_D\<close> has no check of its own. A zero slope that is a
  Python float makes the division raise \<^verbatim>\<open>ZeroDivisionError\<close>; a zero slope that is a
  numpy \<^verbatim>\<open>float64\<close>, the kind the regression returns, gives positive infinity. The
  script's own path reaches it: a series whose transmission rates are all equal is
  fitted with slope zero, whatever the \<open>R\<^sup>2\<close> that comes with it.
\<close>

theorem extract_D_zero:
  "extract_D (PyFloat (Fin 0)) = Inl ZeroDivisionError \<and>
   extract_D (NpFloat (Fin 0)) = Inr (NpFloat PInf) \<and>
   (\<exists>r2. fit_linear [1, 2, 3] [5, 5, 5] = Inr (NpFloat (Fin 0), NpFloat (Fin 5), r2)) \<and>
   then_do (fit_linear [1, 2, 3] [5, 5, 5]) (\<lambda>(s, i, r). extract_D s) = Inr (NpFloat PInf)"
proof -
  have z: "extract_D (NpFloat (Fin 0)) = Inr (NpFloat PInf)"
    by (simp add: extract_D_def Mw_Ci_Co inf_sgn_def)
  have five: "round64 5 = Fin 5"
    by (simp add: round64_eval)
  have f: "fit_linear [1, 2, 3] [5, 5, 5] = Inr (NpFloat (Fin 0), NpFloat (Fin 5), NpFloat NaN)"
    by (simp add: fit_linear_def linregress_def np_broadcast_def amax_def amin_def cov_b1_def
        np_mean_def Let_def round64_0 five)
  have "extract_D (PyFloat (Fin 0)) = Inl ZeroDivisionError"
    by (simp add: extract_D_def Mw_Ci_Co)
  then show ?thesis using z f by (simp add: then_do_def)
qed

text \<open>
  C2 as stated fails: on a zero numpy slope \<open>extract_D\<close> returns a value, infinity,
  and no error.
\<close>

theorem extract_D_zero_not_rejected:
  "\<not> isl (extract_D (NpFloat (Fin 0)))"
  by (simp add: extract_D_def Mw_Ci_Co inf_sgn_def)

section \<open>Refitting the fitted line\<close>

text \<open>The values of each fitted line on the thicknesses of its series, in binary64, and
  the fit of the thicknesses against them.\<close>

lemma predicted_1x: "predicted (- (4952810765473677 / 2 ^ 24)) (345657159574797 / 2 ^ 34) H_1x =
    [905144013050071 / 2 ^ 38, 661703458305509 / 2 ^ 38, 499409755142467 / 2 ^ 38]"
  by (simp add: predicted_def H_1x_val) (simp add: round64_eval)

lemma refit_slope_1x: "round64 (cov_b1 H_1x [905144013050071 / 2 ^ 38, 661703458305509 / 2 ^ 38, 499409755142467 / 2 ^ 38] /
      cov_b1 H_1x H_1x) =
    Fin (- (4952810765473675 / 2 ^ 24))"
proof -
  have "cov_b1 H_1x [905144013050071 / 2 ^ 38, 661703458305509 / 2 ^ 38, 499409755142467 / 2 ^ 38] /
      cov_b1 H_1x H_1x =
      - (122153202947810864053319722736275161088 / 413783358175862102576570887423)"
    by (simp add: H_1x_val cov_b1_def np_mean_def)
  moreover have "round64 (- (122153202947810864053319722736275161088 / 413783358175862102576570887423)) =
      Fin (- (4952810765473675 / 2 ^ 24))"
    by (simp add: round64_eval)
  ultimately show ?thesis by (simp only:)
qed

lemma refit_intercept_1x: "round64 (np_mean [905144013050071 / 2 ^ 38, 661703458305509 / 2 ^ 38, 499409755142467 / 2 ^ 38] -
      (- (4952810765473675 / 2 ^ 24)) * np_mean H_1x) =
    Fin (2765257276598375 / 2 ^ 37)"
proof -
  have "np_mean [905144013050071 / 2 ^ 38, 661703458305509 / 2 ^ 38, 499409755142467 / 2 ^ 38] -
      (- (4952810765473675 / 2 ^ 24)) * np_mean H_1x =
      49814446561887977622024954638533 / 2 ^ 91"
    by (simp add: H_1x_val np_mean_def)
  moreover have "round64 (49814446561887977622024954638533 / 2 ^ 91) =
      Fin (2765257276598375 / 2 ^ 37)"
    by (simp add: round64_eval)
  ultimately show ?thesis by (simp only:)
qed

lemma refit_1x: "\<exists>r. refit H_1x WVTR_1x =
    Inr (NpFloat (Fin (- (4952810765473675 / 2 ^ 24))), NpFloat (Fin (2765257276598375 / 2 ^ 37)), NpFloat r)"
proof -
  obtain r where f: "fit_linear H_1x WVTR_1x =
    Inr (NpFloat (Fin (- (4952810765473677 / 2 ^ 24))), NpFloat (Fin (345657159574797 / 2 ^ 34)), NpFloat r)"
    using fit_1x by blast
  have "refit H_1x WVTR_1x = fit_linear H_1x (predicted (- (4952810765473677 / 2 ^ 24)) (345657159574797 / 2 ^ 34) H_1x)"
    by (simp only: refit_def then_do_def f sum.case prod.case value_of.simps f64.case)
  then have e: "refit H_1x WVTR_1x = fit_linear H_1x
      [905144013050071 / 2 ^ 38, 661703458305509 / 2 ^ 38, 499409755142467 / 2 ^ 38]"
    by (simp only: predicted_1x)
  have l: "length H_1x = length [905144013050071 / 2 ^ 38, 661703458305509 / 2 ^ 38, 499409755142467 / 2 ^ 38 :: real]"
    by (simp add: H_1x_def)
  show ?thesis
    using fit_linear_regular[OF l lengths_1x(2) not_constant_1x var_1x(1) refit_slope_1x]
    by (simp only: e refit_intercept_1x)
qed

lemma predicted_2x: "predicted (- (3621297545846155 / 2 ^ 25)) (2736289745052699 / 2 ^ 38) H_2x =
    [1200723082743073 / 2 ^ 39, 2164120809521573 / 2 ^ 40, 785403709805069 / 2 ^ 39]"
  by (simp add: predicted_def H_2x_val) (simp add: round64_eval)

lemma refit_slope_2x: "round64 (cov_b1 H_2x [1200723082743073 / 2 ^ 39, 2164120809521573 / 2 ^ 40, 785403709805069 / 2 ^ 39] /
      cov_b1 H_2x H_2x) =
    Fin (- (226331096615385 / 2 ^ 21))"
proof -
  have "cov_b1 H_2x [1200723082743073 / 2 ^ 39, 2164120809521573 / 2 ^ 40, 785403709805069 / 2 ^ 39] /
      cov_b1 H_2x H_2x =
      - (22915975717923685824906180073155985408 / 212336196958665298365227941573)"
    by (simp add: H_2x_val cov_b1_def np_mean_def)
  moreover have "round64 (- (22915975717923685824906180073155985408 / 212336196958665298365227941573)) =
      Fin (- (226331096615385 / 2 ^ 21))"
    by (simp add: round64_eval)
  ultimately show ?thesis by (simp only:)
qed

lemma refit_intercept_2x: "round64 (np_mean [1200723082743073 / 2 ^ 39, 2164120809521573 / 2 ^ 40, 785403709805069 / 2 ^ 39] -
      (- (226331096615385 / 2 ^ 21)) * np_mean H_2x) =
    Fin (1368144872526351 / 2 ^ 37)"
proof -
  have "np_mean [1200723082743073 / 2 ^ 39, 2164120809521573 / 2 ^ 40, 785403709805069 / 2 ^ 39] -
      (- (226331096615385 / 2 ^ 21)) * np_mean H_2x =
      1155295638393474234103745697889 / 116056878683004400771792896"
    by (simp add: H_2x_val np_mean_def)
  moreover have "round64 (1155295638393474234103745697889 / 116056878683004400771792896) =
      Fin (1368144872526351 / 2 ^ 37)"
    by (simp add: round64_eval)
  ultimately show ?thesis by (simp only:)
qed

lemma refit_2x: "\<exists>r. refit H_2x WVTR_2x =
    Inr (NpFloat (Fin (- (226331096615385 / 2 ^ 21))), NpFloat (Fin (1368144872526351 / 2 ^ 37)), NpFloat r)"
proof -
  obtain r where f: "fit_linear H_2x WVTR_2x =
    Inr (NpFloat (Fin (- (3621297545846155 / 2 ^ 25))), NpFloat (Fin (2736289745052699 / 2 ^ 38)), NpFloat r)"
    using fit_2x by blast
  have "refit H_2x WVTR_2x = fit_linear H_2x (predicted (- (3621297545846155 / 2 ^ 25)) (2736289745052699 / 2 ^ 38) H_2x)"
    by (simp only: refit_def then_do_def f sum.case prod.case value_of.simps f64.case)
  then have e: "refit H_2x WVTR_2x = fit_linear H_2x
      [1200723082743073 / 2 ^ 39, 2164120809521573 / 2 ^ 40, 785403709805069 / 2 ^ 39]"
    by (simp only: predicted_2x)
  have l: "length H_2x = length [1200723082743073 / 2 ^ 39, 2164120809521573 / 2 ^ 40, 785403709805069 / 2 ^ 39 :: real]"
    by (simp add: H_2x_def)
  show ?thesis
    using fit_linear_regular[OF l lengths_2x(2) not_constant_2x var_2x(1) refit_slope_2x]
    by (simp only: e refit_intercept_2x)
qed

lemma predicted_3x: "predicted (- (988457642666667 / 2 ^ 23)) (5910241503171927 / 2 ^ 39) H_3x =
    [1181333618076331 / 2 ^ 39, 986994937866923 / 2 ^ 39, 792656257657515 / 2 ^ 39]"
  by (simp add: predicted_def H_3x_val) (simp add: round64_eval)

lemma refit_slope_3x: "round64 (cov_b1 H_3x [1181333618076331 / 2 ^ 39, 986994937866923 / 2 ^ 39, 792656257657515 / 2 ^ 39] /
      cov_b1 H_3x H_3x) =
    Fin (- (3953830570666669 / 2 ^ 25))"
proof -
  have "cov_b1 H_3x [1181333618076331 / 2 ^ 39, 986994937866923 / 2 ^ 39, 792656257657515 / 2 ^ 39] /
      cov_b1 H_3x H_3x =
      - (17321733605743442201585679458887532544 / 147001982509845257643833702131)"
    by (simp add: H_3x_val cov_b1_def np_mean_def)
  moreover have "round64 (- (17321733605743442201585679458887532544 / 147001982509845257643833702131)) =
      Fin (- (3953830570666669 / 2 ^ 25))"
    by (simp add: round64_eval)
  ultimately show ?thesis by (simp only:)
qed

lemma refit_intercept_3x: "round64 (np_mean [1181333618076331 / 2 ^ 39, 986994937866923 / 2 ^ 39, 792656257657515 / 2 ^ 39] -
      (- (3953830570666669 / 2 ^ 25)) * np_mean H_3x) =
    Fin (738780187896491 / 2 ^ 36)"
proof -
  have "np_mean [1181333618076331 / 2 ^ 39, 986994937866923 / 2 ^ 39, 792656257657515 / 2 ^ 39] -
      (- (3953830570666669 / 2 ^ 25)) * np_mean H_3x =
      39926042147032104382386244516007 / 3713820117856140824697372672"
    by (simp add: H_3x_val np_mean_def)
  moreover have "round64 (39926042147032104382386244516007 / 3713820117856140824697372672) =
      Fin (738780187896491 / 2 ^ 36)"
    by (simp add: round64_eval)
  ultimately show ?thesis by (simp only:)
qed

lemma refit_3x: "\<exists>r. refit H_3x WVTR_3x =
    Inr (NpFloat (Fin (- (3953830570666669 / 2 ^ 25))), NpFloat (Fin (738780187896491 / 2 ^ 36)), NpFloat r)"
proof -
  obtain r where f: "fit_linear H_3x WVTR_3x =
    Inr (NpFloat (Fin (- (988457642666667 / 2 ^ 23))), NpFloat (Fin (5910241503171927 / 2 ^ 39)), NpFloat r)"
    using fit_3x by blast
  have "refit H_3x WVTR_3x = fit_linear H_3x (predicted (- (988457642666667 / 2 ^ 23)) (5910241503171927 / 2 ^ 39) H_3x)"
    by (simp only: refit_def then_do_def f sum.case prod.case value_of.simps f64.case)
  then have e: "refit H_3x WVTR_3x = fit_linear H_3x
      [1181333618076331 / 2 ^ 39, 986994937866923 / 2 ^ 39, 792656257657515 / 2 ^ 39]"
    by (simp only: predicted_3x)
  have l: "length H_3x = length [1181333618076331 / 2 ^ 39, 986994937866923 / 2 ^ 39, 792656257657515 / 2 ^ 39 :: real]"
    by (simp add: H_3x_def)
  show ?thesis
    using fit_linear_regular[OF l lengths_3x(2) not_constant_3x var_3x(1) refit_slope_3x]
    by (simp only: e refit_intercept_3x)
qed

lemma predicted_PLA: "predicted (- (2966301366816463 / 2 ^ 25)) (4136585336703607 / 2 ^ 39) H_PLA =
    [2052385829385335 / 2 ^ 40, 148597345391927 / 2 ^ 38, 49998731899003 / 2 ^ 37, 51397582204085 / 2 ^ 38]"
  by (simp add: predicted_def H_PLA_val) (simp add: round64_eval)

lemma refit_slope_PLA: "round64 (cov_b1 H_PLA [2052385829385335 / 2 ^ 40, 148597345391927 / 2 ^ 38, 49998731899003 / 2 ^ 37, 51397582204085 / 2 ^ 38] /
      cov_b1 H_PLA H_PLA) =
    Fin (- (5932602733632925 / 2 ^ 26))"
proof -
  have "cov_b1 H_PLA [2052385829385335 / 2 ^ 40, 148597345391927 / 2 ^ 38, 49998731899003 / 2 ^ 37, 51397582204085 / 2 ^ 38] /
      cov_b1 H_PLA H_PLA =
      - (18029067219116436308082907159195549696 / 203942565241282405635489880655)"
    by (simp add: H_PLA_val cov_b1_def np_mean_def)
  moreover have "round64 (- (18029067219116436308082907159195549696 / 203942565241282405635489880655)) =
      Fin (- (5932602733632925 / 2 ^ 26))"
    by (simp add: round64_eval)
  ultimately show ?thesis by (simp only:)
qed

lemma refit_intercept_PLA: "round64 (np_mean [2052385829385335 / 2 ^ 40, 148597345391927 / 2 ^ 38, 49998731899003 / 2 ^ 37, 51397582204085 / 2 ^ 38] -
      (- (5932602733632925 / 2 ^ 26)) * np_mean H_PLA) =
    Fin (8273170673407213 / 2 ^ 40)"
proof -
  have "np_mean [2052385829385335 / 2 ^ 40, 148597345391927 / 2 ^ 38, 49998731899003 / 2 ^ 37, 51397582204085 / 2 ^ 38] -
      (- (5932602733632925 / 2 ^ 26)) * np_mean H_PLA =
      1164345261310288713917353503299 / 2 ^ 87"
    by (simp add: H_PLA_val np_mean_def)
  moreover have "round64 (1164345261310288713917353503299 / 2 ^ 87) =
      Fin (8273170673407213 / 2 ^ 40)"
    by (simp add: round64_eval)
  ultimately show ?thesis by (simp only:)
qed

lemma refit_PLA: "\<exists>r. refit H_PLA WVTR_PLA =
    Inr (NpFloat (Fin (- (5932602733632925 / 2 ^ 26))), NpFloat (Fin (8273170673407213 / 2 ^ 40)), NpFloat r)"
proof -
  obtain r where f: "fit_linear H_PLA WVTR_PLA =
    Inr (NpFloat (Fin (- (2966301366816463 / 2 ^ 25))), NpFloat (Fin (4136585336703607 / 2 ^ 39)), NpFloat r)"
    using fit_PLA by blast
  have "refit H_PLA WVTR_PLA = fit_linear H_PLA (predicted (- (2966301366816463 / 2 ^ 25)) (4136585336703607 / 2 ^ 39) H_PLA)"
    by (simp only: refit_def then_do_def f sum.case prod.case value_of.simps f64.case)
  then have e: "refit H_PLA WVTR_PLA = fit_linear H_PLA
      [2052385829385335 / 2 ^ 40, 148597345391927 / 2 ^ 38, 49998731899003 / 2 ^ 37, 51397582204085 / 2 ^ 38]"
    by (simp only: predicted_PLA)
  have l: "length H_PLA = length [2052385829385335 / 2 ^ 40, 148597345391927 / 2 ^ 38, 49998731899003 / 2 ^ 37, 51397582204085 / 2 ^ 38 :: real]"
    by (simp add: H_PLA_def)
  show ?thesis
    using fit_linear_regular[OF l lengths_PLA(2) not_constant_PLA var_PLA(1) refit_slope_PLA]
    by (simp only: e refit_intercept_PLA)
qed

text \<open>
  C7, as the code has it: for each of the four series, fitting the thicknesses against
  the values of the fitted line, computed in binary64, returns a slope and an intercept
  that agree with those of the first fit to within a relative error of \<open>1e-12\<close>.
\<close>

theorem refit_agrees:
  "agree (1 / 10 ^ 12) (slope_of (refit H_1x WVTR_1x)) (slope_of (fit_linear H_1x WVTR_1x)) \<and>
   agree (1 / 10 ^ 12) (intercept_of (refit H_1x WVTR_1x))
     (intercept_of (fit_linear H_1x WVTR_1x)) \<and>
   agree (1 / 10 ^ 12) (slope_of (refit H_2x WVTR_2x)) (slope_of (fit_linear H_2x WVTR_2x)) \<and>
   agree (1 / 10 ^ 12) (intercept_of (refit H_2x WVTR_2x))
     (intercept_of (fit_linear H_2x WVTR_2x)) \<and>
   agree (1 / 10 ^ 12) (slope_of (refit H_3x WVTR_3x)) (slope_of (fit_linear H_3x WVTR_3x)) \<and>
   agree (1 / 10 ^ 12) (intercept_of (refit H_3x WVTR_3x))
     (intercept_of (fit_linear H_3x WVTR_3x)) \<and>
   agree (1 / 10 ^ 12) (slope_of (refit H_PLA WVTR_PLA)) (slope_of (fit_linear H_PLA WVTR_PLA)) \<and>
   agree (1 / 10 ^ 12) (intercept_of (refit H_PLA WVTR_PLA))
     (intercept_of (fit_linear H_PLA WVTR_PLA))"
proof -
  obtain r1 r2 r3 r4 where f:
    "fit_linear H_1x WVTR_1x = Inr (NpFloat (Fin (- (4952810765473677 / 2 ^ 24))), NpFloat (Fin (345657159574797 / 2 ^ 34)), NpFloat r1)"
    "fit_linear H_2x WVTR_2x = Inr (NpFloat (Fin (- (3621297545846155 / 2 ^ 25))), NpFloat (Fin (2736289745052699 / 2 ^ 38)), NpFloat r2)"
    "fit_linear H_3x WVTR_3x = Inr (NpFloat (Fin (- (988457642666667 / 2 ^ 23))), NpFloat (Fin (5910241503171927 / 2 ^ 39)), NpFloat r3)"
    "fit_linear H_PLA WVTR_PLA = Inr (NpFloat (Fin (- (2966301366816463 / 2 ^ 25))), NpFloat (Fin (4136585336703607 / 2 ^ 39)), NpFloat r4)"
    using fit_1x fit_2x fit_3x fit_PLA by blast
  obtain q1 q2 q3 q4 where g:
    "refit H_1x WVTR_1x = Inr (NpFloat (Fin (- (4952810765473675 / 2 ^ 24))), NpFloat (Fin (2765257276598375 / 2 ^ 37)), NpFloat q1)"
    "refit H_2x WVTR_2x = Inr (NpFloat (Fin (- (226331096615385 / 2 ^ 21))), NpFloat (Fin (1368144872526351 / 2 ^ 37)), NpFloat q2)"
    "refit H_3x WVTR_3x = Inr (NpFloat (Fin (- (3953830570666669 / 2 ^ 25))), NpFloat (Fin (738780187896491 / 2 ^ 36)), NpFloat q3)"
    "refit H_PLA WVTR_PLA = Inr (NpFloat (Fin (- (5932602733632925 / 2 ^ 26))), NpFloat (Fin (8273170673407213 / 2 ^ 40)), NpFloat q4)"
    using refit_1x refit_2x refit_3x refit_PLA by blast
  show ?thesis
    unfolding f g by (simp add: slope_of_def intercept_of_def)
qed

text \<open>
  C7 as stated, with identical results, fails: on the first series the slope of the
  second fit is not the slope of the first (it is two units in the last place away).
\<close>

theorem refit_changes_slope_1x:
  "slope_of (refit H_1x WVTR_1x) \<noteq> slope_of (fit_linear H_1x WVTR_1x)"
proof -
  obtain r where f: "fit_linear H_1x WVTR_1x =
    Inr (NpFloat (Fin (- (4952810765473677 / 2 ^ 24))), NpFloat (Fin (345657159574797 / 2 ^ 34)), NpFloat r)"
    using fit_1x by blast
  obtain r' where g: "refit H_1x WVTR_1x =
    Inr (NpFloat (Fin (- (4952810765473675 / 2 ^ 24))), NpFloat (Fin (2765257276598375 / 2 ^ 37)), NpFloat r')"
    using refit_1x by blast
  show ?thesis
    unfolding f g by (simp add: slope_of_def)
qed

section \<open>The printed text\<close>

lemma fmt_2e_pos:
  assumes "0 < x" and "ilog10 x = e" and "rne (x / 10 powi (e - 2)) = m" and "m \<noteq> 1000"
  shows "fmt_2e (Fin x) =
    [digit (m div 100), CHR ''.'', digit (m div 10 mod 10), digit (m mod 10), CHR ''e'']
    @ (if e < 0 then ''-'' else ''+'') @ exp_digits \<bar>e\<bar>"
  using assms by (simp add: Let_def)

lemma fmt_1x: "fmt_2e (Fin (5072026722871387 / 2 ^ 77)) = ''3.36e-08''"
proof -
  have e: "ilog10 (5072026722871387 / 2 ^ 77) = - 8"
    by (simp add: ilog10.simps)
  have m: "rne ((5072026722871387 / 2 ^ 77) / 10 powi (- 8 - 2)) = 336"
    by (simp add: rne_def Let_def power_int_minus)
  have "(0::real) < 5072026722871387 / 2 ^ 77" and "(336::int) \<noteq> 1000"
    by simp_all
  from fmt_2e_pos[OF this(1) e m this(2)] show ?thesis
    by (simp add: digit_def exp_digits_def)
qed

lemma fmt_2x: "fmt_2e (Fin (1734239470643791 / 2 ^ 74)) = ''9.18e-08''"
proof -
  have e: "ilog10 (1734239470643791 / 2 ^ 74) = - 8"
    by (simp add: ilog10.simps)
  have m: "rne ((1734239470643791 / 2 ^ 74) / 10 powi (- 8 - 2)) = 918"
    by (simp add: rne_def Let_def power_int_minus)
  have "(0::real) < 1734239470643791 / 2 ^ 74" and "(918::int) \<noteq> 1000"
    by simp_all
  from fmt_2e_pos[OF this(1) e m this(2)] show ?thesis
    by (simp add: digit_def exp_digits_def)
qed

lemma fmt_3x: "fmt_2e (Fin (6353531874172313 / 2 ^ 76)) = ''8.41e-08''"
proof -
  have e: "ilog10 (6353531874172313 / 2 ^ 76) = - 8"
    by (simp add: ilog10.simps)
  have m: "rne ((6353531874172313 / 2 ^ 76) / 10 powi (- 8 - 2)) = 841"
    by (simp add: rne_def Let_def power_int_minus)
  have "(0::real) < 6353531874172313 / 2 ^ 76" and "(841::int) \<noteq> 1000"
    by simp_all
  from fmt_2e_pos[OF this(1) e m this(2)] show ?thesis
    by (simp add: digit_def exp_digits_def)
qed

lemma fmt_PLA: "fmt_2e (Fin (2117181082545237 / 2 ^ 74)) = ''1.12e-07''"
proof -
  have e: "ilog10 (2117181082545237 / 2 ^ 74) = - 7"
    by (simp add: ilog10.simps)
  have m: "rne ((2117181082545237 / 2 ^ 74) / 10 powi (- 7 - 2)) = 112"
    by (simp add: rne_def Let_def power_int_minus)
  have "(0::real) < 2117181082545237 / 2 ^ 74" and "(112::int) \<noteq> 1000"
    by simp_all
  from fmt_2e_pos[OF this(1) e m this(2)] show ?thesis
    by (simp add: digit_def exp_digits_def)
qed

lemma D_PLA_imperm_val: "D_PLA_imperm = Fin (2535301200456459 / 2 ^ 101)"
  by (simp add: D_PLA_imperm_def round64_eval)

lemma fmt_imperm: "fmt_2e D_PLA_imperm = ''1.00e-15''"
proof -
  have e: "ilog10 (2535301200456459 / 2 ^ 101) = - 15"
    by (simp add: ilog10.simps)
  have m: "rne ((2535301200456459 / 2 ^ 101) / 10 powi (- 15 - 2)) = 100"
    by (simp add: rne_def Let_def power_int_minus)
  have "(0::real) < 2535301200456459 / 2 ^ 101" and "(100::int) \<noteq> 1000"
    by simp_all
  from fmt_2e_pos[OF this(1) e m this(2)] show ?thesis
    by (simp add: D_PLA_imperm_val digit_def exp_digits_def)
qed

lemma Ds_2x_val: "Ds_2x = Inr (NpFloat (Fin (1734239470643791 / 2 ^ 74)))"
proof -
  obtain i r where "fit_linear H_2x WVTR_2x = Inr (NpFloat (Fin (- (3621297545846155 / 2 ^ 25))), i, r)"
    using fit_2x by blast
  then show ?thesis by (simp only: Ds_2x_def sum.case prod.case D_of_slope_2x)
qed

lemma Ds_3x_val: "Ds_3x = Inr (NpFloat (Fin (6353531874172313 / 2 ^ 76)))"
proof -
  obtain i r where "fit_linear H_3x WVTR_3x = Inr (NpFloat (Fin (- (988457642666667 / 2 ^ 23))), i, r)"
    using fit_3x by blast
  then show ?thesis by (simp only: Ds_3x_def sum.case prod.case D_of_slope_3x)
qed

lemma D_PLA_perm_val: "D_PLA_perm = Inr (NpFloat (Fin (2117181082545237 / 2 ^ 74)))"
proof -
  obtain i r where "fit_linear H_PLA WVTR_PLA = Inr (NpFloat (Fin (- (2966301366816463 / 2 ^ 25))), i, r)"
    using fit_PLA by blast
  then show ?thesis by (simp only: D_PLA_perm_def sum.case prod.case D_of_slope_PLA)
qed

text \<open>
  C9: the script prints a heading and then exactly five lines, one per diffusion
  coefficient, each number in scientific notation with two decimals and an \<open>e\<close>
  exponent: the three Biopolymer-1 coefficients, the permeable PLA coefficient and the
  constant \<open>1e-15\<close>.
\<close>

theorem printed_text:
  "printed = Inr
     [''Extracted diffusion coefficients (linear regression):'',
      ''Biopolymer-1 Ds (1'' @ times_sign @ '') = 3.36e-08 m'' @ superscript_two @ ''/s'',
      ''Biopolymer-1 Ds (2'' @ times_sign @ '') = 9.18e-08 m'' @ superscript_two @ ''/s'',
      ''Biopolymer-1 Ds (3'' @ times_sign @ '') = 8.41e-08 m'' @ superscript_two @ ''/s'',
      ''PLA Ds (permeable) = 1.12e-07 m'' @ superscript_two @ ''/s'',
      ''PLA Ds (impermeable) = 1.00e-15 m'' @ superscript_two @ ''/s''] \<and>
   fmt_2e (returned Ds_1x) = ''3.36e-08'' \<and> fmt_2e (returned Ds_2x) = ''9.18e-08'' \<and>
   fmt_2e (returned Ds_3x) = ''8.41e-08'' \<and> fmt_2e (returned D_PLA_perm) = ''1.12e-07'' \<and>
   fmt_2e D_PLA_imperm = ''1.00e-15''"
proof -
  obtain i1 r1 where f1: "fit_linear H_1x WVTR_1x = Inr (NpFloat (Fin (- (4952810765473677 / 2 ^ 24))), i1, r1)"
    using fit_1x by blast
  obtain i2 r2 where f2: "fit_linear H_2x WVTR_2x = Inr (NpFloat (Fin (- (3621297545846155 / 2 ^ 25))), i2, r2)"
    using fit_2x by blast
  obtain i3 r3 where f3: "fit_linear H_3x WVTR_3x = Inr (NpFloat (Fin (- (988457642666667 / 2 ^ 23))), i3, r3)"
    using fit_3x by blast
  obtain iP rP where fP: "fit_linear H_PLA WVTR_PLA = Inr (NpFloat (Fin (- (2966301366816463 / 2 ^ 25))), iP, rP)"
    using fit_PLA by blast
  have "printed = Inr
     [''Extracted diffusion coefficients (linear regression):'',
      ''Biopolymer-1 Ds (1'' @ times_sign @ '') = 3.36e-08 m'' @ superscript_two @ ''/s'',
      ''Biopolymer-1 Ds (2'' @ times_sign @ '') = 9.18e-08 m'' @ superscript_two @ ''/s'',
      ''Biopolymer-1 Ds (3'' @ times_sign @ '') = 8.41e-08 m'' @ superscript_two @ ''/s'',
      ''PLA Ds (permeable) = 1.12e-07 m'' @ superscript_two @ ''/s'',
      ''PLA Ds (impermeable) = 1.00e-15 m'' @ superscript_two @ ''/s'']"
    by (simp only: printed_def then_do_def f1 f2 f3 fP sum.case prod.case
        D_of_slope_1x D_of_slope_2x D_of_slope_3x D_of_slope_PLA value_of.simps
        fmt_1x fmt_2x fmt_3x fmt_PLA fmt_imperm append.simps append_assoc)
  then show ?thesis
    by (simp only: Ds_1x_val Ds_2x_val Ds_3x_val D_PLA_perm_val returned.simps value_of.simps
        fmt_1x fmt_2x fmt_3x fmt_PLA fmt_imperm simp_thms)
qed

section \<open>The impermeable reference curve\<close>

text \<open>
  How far rounding moves a number: half a grid spacing at most, so at most
  \<open>2\<^sup>E\<^sup>-\<^sup>5\<^sup>4\<close> for a number below \<open>2\<^sup>E\<close>.
\<close>

lemma rne_error: "\<bar>of_int (rne y) - y\<bar> \<le> 1 / 2"
proof -
  have "of_int \<lfloor>y\<rfloor> \<le> y" "y < of_int \<lfloor>y\<rfloor> + 1" by linarith+
  then show ?thesis by (auto simp: rne_def Let_def)
qed

lemma rnd_error: "\<bar>rnd x - x\<bar> \<le> quantum x / 2"
proof -
  have q: "0 < quantum x" by (rule quantum_pos)
  have "rnd x - x = (of_int (rne (x / quantum x)) - x / quantum x) * quantum x"
    using q by (simp add: rnd_def field_simps)
  then have "\<bar>rnd x - x\<bar> = \<bar>of_int (rne (x / quantum x)) - x / quantum x\<bar> * quantum x"
    using q by (simp add: abs_mult)
  also have "\<dots> \<le> (1 / 2) * quantum x"
    using rne_error[of "x / quantum x"] q by (intro mult_right_mono) simp_all
  finally show ?thesis by simp
qed

lemma quantum_le:
  assumes pos: "0 < x" and lt: "x < 2 powi E" and E: "- 1022 < E"
  shows "quantum x \<le> 2 powi (E - 53)"
proof -
  have "ilog2 x < E"
  proof (rule ccontr)
    assume "\<not> ilog2 x < E"
    then have "E \<le> ilog2 x" by simp
    then have "(2::real) powi E \<le> 2 powi ilog2 x"
      by (rule power_int_increasing) simp
    also have "\<dots> \<le> x" using ilog2_bounds[OF pos] by simp
    finally show False using lt by simp
  qed
  then have "max (ilog2 \<bar>x\<bar>) (- 1022) - 52 \<le> E - 53" using pos E by simp
  then show ?thesis unfolding quantum_def by (rule power_int_increasing) simp
qed

lemma rnd_close:
  assumes "0 \<le> x" and "x < 2 powi E" and "- 1022 < E"
  shows "\<bar>rnd x - x\<bar> \<le> 2 powi (E - 54)"
proof (cases "x = 0")
  case True
  have "(0::real) < 2 powi (E - 54)" by (simp add: zero_less_power_int)
  then show ?thesis using True by (simp add: rnd_0)
next
  case False
  then have pos: "0 < x" using assms(1) by simp
  have "\<bar>rnd x - x\<bar> \<le> quantum x / 2" by (rule rnd_error)
  also have "\<dots> \<le> 2 powi (E - 53) / 2"
    using quantum_le[OF pos assms(2,3)] by simp
  also have "\<dots> = 2 powi (E - 54)"
  proof -
    have "(2::real) powi (E - 53) = 2 powi ((E - 54) + 1)" by simp
    also have "\<dots> = 2 powi (E - 54) * 2" by (subst power_int_add) simp_all
    finally show ?thesis by simp
  qed
  finally show ?thesis .
qed

lemma round64_fin:
  assumes "0 < x" and "rnd x < 2 ^ 1024"
  shows "round64 x = Fin (rnd x)"
  using assms rnd_nonneg[of x] by (simp add: round64_def Let_def)

lemma round64_small:
  assumes "0 < x" and "rnd x < 10 ^ 12"
  shows "round64 x = Fin (rnd x)"
proof -
  have "(10::real) ^ 12 < 2 ^ 1024" by simp
  then have "rnd x < 2 ^ 1024" using assms(2) by (rule less_trans[rotated])
  then show ?thesis using assms(1) by (rule round64_fin[rotated])
qed

text \<open>
  The value of the curve at a thickness between \<open>6e-5\<close> and \<open>9e-5\<close>, which covers
  the sampled range: the denominator \<open>t\<close> and the value \<open>v\<close> are within the rounding
  errors of the exact \<open>Hp / D + H / D\<close> and \<open>Mw * (Ci - Co) / t\<close>.
\<close>

lemma Hp_val: "Hp = Fin (1152921504606847 / 2 ^ 64)"
  by (simp add: Hp_def round64_eval)

lemma Hp_over_D: "fdiv Hp D_PLA_imperm = Fin 62500000000"
  by (simp add: Hp_val D_PLA_imperm_val round64_eval)

lemma rnd_within:
  assumes "0 \<le> x" and "x < 2 powi E" and "- 1022 < E"
  shows "x - 2 powi (E - 54) \<le> rnd x" and "rnd x \<le> x + 2 powi (E - 54)"
  using rnd_close[OF assms] by linarith+

lemma imperm_at:
  assumes lo: "6 / 10 ^ 5 \<le> H" and hi: "H \<le> 9 / 10 ^ 5"
  shows "\<exists>t v. imperm H = Fin v \<and>
    62500000000 + H / (2535301200456459 / 2 ^ 101) - 1 / 2 ^ 15 \<le> t \<and>
    t \<le> 62500000000 + H / (2535301200456459 / 2 ^ 101) + 1 / 2 ^ 15 \<and>
    (2788967785139771 / 2 ^ 48) / t - 1 / 2 ^ 87 \<le> v \<and>
    v \<le> (2788967785139771 / 2 ^ 48) / t + 1 / 2 ^ 87 \<and>
    12 * 10 ^ 10 \<le> t \<and> t \<le> 16 * 10 ^ 10"
proof -
  define Dv :: real where "Dv = 2535301200456459 / 2 ^ 101"
  define c :: real where "c = 2788967785139771 / 2 ^ 48"
  have Dpos: "0 < Dv" and Dne: "Dv \<noteq> 0" by (simp_all add: Dv_def)
  have Dinv: "10 ^ 15 - 1 \<le> 1 / Dv" "1 / Dv \<le> 10 ^ 15" by (simp_all add: Dv_def)
  have cpos: "0 < c" and cle: "c \<le> 10" by (simp_all add: c_def)
  define x1 where "x1 = H / Dv"
  have x1: "x1 = H * (1 / Dv)" by (simp add: x1_def)
  have "(6 / 10 ^ 5) * (10 ^ 15 - 1) \<le> H * (1 / Dv)"
    using lo Dinv(1) by (intro mult_mono) simp_all
  moreover have "(59 * 10 ^ 9 :: real) \<le> (6 / 10 ^ 5) * (10 ^ 15 - 1)" by simp
  ultimately have "59 * 10 ^ 9 \<le> H * (1 / Dv)" by linarith
  then have x1_lo: "59 * 10 ^ 9 \<le> x1" unfolding x1 .
  have "H * (1 / Dv) \<le> (9 / 10 ^ 5) * 10 ^ 15"
    using lo hi Dinv(2) Dpos by (intro mult_mono) simp_all
  moreover have "(9 / 10 ^ 5) * 10 ^ 15 \<le> (9 * 10 ^ 10 :: real)" by simp
  ultimately have "H * (1 / Dv) \<le> 9 * 10 ^ 10" by linarith
  then have x1_hi: "x1 \<le> 9 * 10 ^ 10" unfolding x1 .
  define r1 where "r1 = rnd x1"
  have "x1 - 2 powi (37 - 54) \<le> rnd x1" and "rnd x1 \<le> x1 + 2 powi (37 - 54)"
    using x1_lo x1_hi by (intro rnd_within; simp)+
  then have e1: "x1 - 1 / 2 ^ 17 \<le> r1" "r1 \<le> x1 + 1 / 2 ^ 17"
    by (simp_all add: r1_def power_int_minus divide_simps)
  have "r1 < 10 ^ 12" using e1 x1_hi by simp
  then have r1_fin: "round64 x1 = Fin r1"
    unfolding r1_def using x1_lo by (intro round64_small) simp_all
  define x2 where "x2 = 62500000000 + r1"
  have x2_lo: "121 * 10 ^ 9 \<le> x2" and x2_hi: "x2 \<le> 153 * 10 ^ 9"
    using x1_lo x1_hi e1 by (simp_all add: x2_def)
  define t where "t = rnd x2"
  have "x2 - 2 powi (38 - 54) \<le> rnd x2" and "rnd x2 \<le> x2 + 2 powi (38 - 54)"
    using x2_lo x2_hi by (intro rnd_within; simp)+
  then have e2: "x2 - 1 / 2 ^ 16 \<le> t" "t \<le> x2 + 1 / 2 ^ 16"
    by (simp_all add: t_def power_int_minus divide_simps)
  have "t < 10 ^ 12" using e2 x2_hi by simp
  then have t_fin: "round64 x2 = Fin t"
    unfolding t_def using x2_lo by (intro round64_small) simp_all
  have t_lo: "12 * 10 ^ 10 \<le> t" and t_hi: "t \<le> 16 * 10 ^ 10"
    using x2_lo x2_hi e2 by simp_all
  have tpos: "0 < t" using t_lo by simp
  have et: "62500000000 + x1 - 1 / 2 ^ 15 \<le> t" "t \<le> 62500000000 + x1 + 1 / 2 ^ 15"
    using e1 e2 by (simp_all add: x2_def)
  define x3 where "x3 = c / t"
  have x3_pos: "0 < x3" using cpos tpos by (simp add: x3_def)
  have "c / t \<le> 10 / (12 * 10 ^ 10)"
    using cle cpos t_lo by (intro frac_le) simp_all
  then have x3_hi: "x3 \<le> 1 / (12 * 10 ^ 9)" by (simp add: x3_def)
  define v where "v = rnd x3"
  have "x3 - 2 powi (- 33 - 54) \<le> rnd x3" and "rnd x3 \<le> x3 + 2 powi (- 33 - 54)"
    using x3_pos x3_hi by (intro rnd_within; simp add: power_int_minus)+
  then have e3: "x3 - 1 / 2 ^ 87 \<le> v" "v \<le> x3 + 1 / 2 ^ 87"
    by (simp_all add: v_def power_int_minus divide_simps)
  have "v < 10 ^ 12" using e3 x3_hi by simp
  then have v_fin: "round64 x3 = Fin v"
    unfolding v_def using x3_pos by (intro round64_small) simp_all
  have "imperm H = fdiv (Fin c) (fadd (Fin 62500000000) (fdiv (Fin H) (Fin Dv)))"
    by (simp only: imperm_def Mw_Ci_Co Hp_over_D Hp_over_D[unfolded D_PLA_imperm_val]
        D_PLA_imperm_val c_def Dv_def)
  also have "fdiv (Fin H) (Fin Dv) = Fin r1"
    using Dne r1_fin by (simp add: x1_def)
  also have "fadd (Fin 62500000000) (Fin r1) = Fin t"
    using t_fin by (simp add: x2_def)
  also have "fdiv (Fin c) (Fin t) = Fin v"
    using tpos v_fin by (simp add: x3_def)
  finally have "imperm H = Fin v" .
  then show ?thesis
    using et e3 t_lo t_hi unfolding x1_def x3_def c_def Dv_def by blast
qed


lemma imperm_strict:
  assumes lo: "6 / 10 ^ 5 \<le> H" and gap: "H + 9 / 10 ^ 8 \<le> H'" and hi: "H' \<le> 9 / 10 ^ 5"
  shows "f64_lt (imperm H') (imperm H)"
proof -
  define Dv :: real where "Dv = 2535301200456459 / 2 ^ 101"
  define c :: real where "c = 2788967785139771 / 2 ^ 48"
  have Dinv: "10 ^ 15 - 1 \<le> 1 / Dv" by (simp add: Dv_def)
  have c9: "9 \<le> c" by (simp add: c_def)
  have H_hi: "H \<le> 9 / 10 ^ 5" and H'_lo: "6 / 10 ^ 5 \<le> H'" using lo gap hi by simp_all
  obtain t v where v: "imperm H = Fin v"
    and t1: "t \<le> 62500000000 + H / Dv + 1 / 2 ^ 15"
    and v1: "c / t - 1 / 2 ^ 87 \<le> v"
    and tlo: "12 * 10 ^ 10 \<le> t" and thi: "t \<le> 16 * 10 ^ 10"
    using imperm_at[OF lo H_hi] unfolding Dv_def c_def by blast
  obtain t' v' where v': "imperm H' = Fin v'"
    and t1': "62500000000 + H' / Dv - 1 / 2 ^ 15 \<le> t'"
    and v1': "v' \<le> c / t' + 1 / 2 ^ 87"
    and tlo': "12 * 10 ^ 10 \<le> t'" and thi': "t' \<le> 16 * 10 ^ 10"
    using imperm_at[OF H'_lo hi] unfolding Dv_def c_def by blast
  have "(9 / 10 ^ 8) * (10 ^ 15 - 1) \<le> (H' - H) * (1 / Dv)"
    using gap Dinv by (intro mult_mono) simp_all
  moreover have "(H' - H) * (1 / Dv) = H' / Dv - H / Dv" by (simp add: diff_divide_distrib)
  moreover have "(89 * 10 ^ 6 :: real) \<le> (9 / 10 ^ 8) * (10 ^ 15 - 1)" by simp
  ultimately have "89 * 10 ^ 6 \<le> H' / Dv - H / Dv" by linarith
  then have dt: "8 * 10 ^ 7 \<le> t' - t" using t1 t1' by simp
  have tpos: "0 < t" "0 < t'" using tlo tlo' by simp_all
  have "c / t - c / t' = c * (t' - t) / (t * t')"
    using tpos by (simp add: field_simps)
  moreover have "9 * (8 * 10 ^ 7) / ((16 * 10 ^ 10) * (16 * 10 ^ 10)) \<le> c * (t' - t) / (t * t')"
  proof (rule frac_le)
    show "9 * (8 * 10 ^ 7) \<le> c * (t' - t)"
      using c9 dt by (intro mult_mono) simp_all
    show "0 < t * t'" using tpos by simp
    show "t * t' \<le> (16 * 10 ^ 10) * (16 * 10 ^ 10)"
      using thi thi' tpos by (intro mult_mono) simp_all
    show "0 \<le> c * (t' - t)"
      using c9 dt by (intro mult_nonneg_nonneg) simp_all
  qed
  moreover have "(2 / 2 ^ 87 :: real) < 9 * (8 * 10 ^ 7) / ((16 * 10 ^ 10) * (16 * 10 ^ 10))"
    by simp
  ultimately have "2 / 2 ^ 87 < c / t - c / t'" by linarith
  then have "v' < v" using v1 v1' by simp
  then show ?thesis by (simp add: v v')
qed

lemma H_PLA_min: "amin H_PLA = 4722366482869645 / 2 ^ 66"
  by (simp add: H_PLA_val amin_def)

lemma H_PLA_max: "amax H_PLA = 6124319032471571 / 2 ^ 66"
  by (simp add: H_PLA_val amax_def)

lemma linspace_unfold:
  assumes "1 < num" and "rnd (stop - start) = delta" and "rnd (delta / real (num - 1)) = step"
    and "step \<noteq> 0"
  shows "linspace start stop num =
    (map (\<lambda>k. rnd (rnd (real k * step) + start)) [0..<num])[num - 1 := stop]"
  using assms by (simp add: linspace_def Let_def comp_def)

lemma Hfit_P_unfold: "Hfit_P =
    (map (\<lambda>k. rnd (rnd (real k * (7214067390916443 / 2 ^ 76)) + 4722366482869645 / 2 ^ 66)) [0..<200])
      [199 := 6124319032471571 / 2 ^ 66]"
proof -
  have d: "rnd (6124319032471571 / 2 ^ 66 - 4722366482869645 / 2 ^ 66) = 700976274800963 / 2 ^ 65"
    by (simp add: round64_eval)
  have s: "rnd ((700976274800963 / 2 ^ 65) / real (200 - 1)) = 7214067390916443 / 2 ^ 76"
    by (simp add: round64_eval)
  have "linspace (4722366482869645 / 2 ^ 66) (6124319032471571 / 2 ^ 66) 200 =
    (map (\<lambda>k. rnd (rnd (real k * (7214067390916443 / 2 ^ 76)) + 4722366482869645 / 2 ^ 66)) [0..<200])
      [200 - 1 := 6124319032471571 / 2 ^ 66]"
    by (rule linspace_unfold[OF _ d s]) simp_all
  then show ?thesis by (simp add: Hfit_P_def H_PLA_min H_PLA_max)
qed

lemma length_Hfit_P: "length Hfit_P = 200"
  by (simp add: Hfit_P_unfold)

lemma Hfit_P_near:
  assumes "k < 200"
  shows "4722366482869645 / 2 ^ 66 + real k * (7214067390916443 / 2 ^ 76) - 1 / 2 ^ 66 \<le> Hfit_P ! k"
    and "Hfit_P ! k \<le> 4722366482869645 / 2 ^ 66 + real k * (7214067390916443 / 2 ^ 76) + 1 / 2 ^ 66"
proof -
  define s :: real where "s = 7214067390916443 / 2 ^ 76"
  define h0 :: real where "h0 = 4722366482869645 / 2 ^ 66"
  have spos: "0 < s" and s_hi: "s \<le> 1 / 10 ^ 7" by (simp_all add: s_def)
  have h0_hi: "h0 \<le> 65 / 10 ^ 6" and h0_pos: "0 < h0" by (simp_all add: h0_def)
  have "h0 + real k * s - 1 / 2 ^ 66 \<le> Hfit_P ! k \<and> Hfit_P ! k \<le> h0 + real k * s + 1 / 2 ^ 66"
  proof (cases "k = 199")
    case True
    then have "Hfit_P ! k = 6124319032471571 / 2 ^ 66"
      by (simp add: Hfit_P_unfold)
    then show ?thesis using True by (simp add: s_def h0_def)
  next
    case False
    then have k: "k < 199" using assms by simp
    then have nth: "Hfit_P ! k = rnd (rnd (real k * s) + h0)"
      by (simp add: Hfit_P_unfold s_def h0_def)
    have ks0: "0 \<le> real k * s" using spos by simp
    have "real k * s \<le> 199 * (1 / 10 ^ 7)"
      using k s_hi spos by (intro mult_mono) simp_all
    then have ks_hi: "real k * s \<le> 2 / 10 ^ 5" by simp
    have "real k * s - 2 powi (- 13 - 54) \<le> rnd (real k * s)"
      and "rnd (real k * s) \<le> real k * s + 2 powi (- 13 - 54)"
      using ks0 ks_hi by (intro rnd_within; simp add: power_int_minus)+
    then have a: "real k * s - 1 / 2 ^ 67 \<le> rnd (real k * s)"
      "rnd (real k * s) \<le> real k * s + 1 / 2 ^ 67"
      by (simp_all add: power_int_minus divide_simps)
    define y where "y = rnd (real k * s) + h0"
    have y0: "0 \<le> y" using a ks0 h0_pos h0_hi by (simp add: y_def h0_def)
    have y_hi: "y \<le> 9 / 10 ^ 5" using a ks_hi h0_hi by (simp add: y_def)
    have "y - 2 powi (- 13 - 54) \<le> rnd y" and "rnd y \<le> y + 2 powi (- 13 - 54)"
      using y0 y_hi by (intro rnd_within; simp add: power_int_minus)+
    then have b: "y - 1 / 2 ^ 67 \<le> rnd y" "rnd y \<le> y + 1 / 2 ^ 67"
      by (simp_all add: power_int_minus divide_simps)
    show ?thesis using a b unfolding nth y_def[symmetric] by (simp add: y_def)
  qed
  then show "4722366482869645 / 2 ^ 66 + real k * (7214067390916443 / 2 ^ 76) - 1 / 2 ^ 66 \<le> Hfit_P ! k"
    and "Hfit_P ! k \<le> 4722366482869645 / 2 ^ 66 + real k * (7214067390916443 / 2 ^ 76) + 1 / 2 ^ 66"
    by (simp_all add: s_def h0_def)
qed

lemma Hfit_P_apart:
  assumes "i < j" and "j < 200"
  shows "6 / 10 ^ 5 \<le> Hfit_P ! i" and "Hfit_P ! i + 9 / 10 ^ 8 \<le> Hfit_P ! j"
    and "Hfit_P ! j \<le> 9 / 10 ^ 5"
proof -
  define s :: real where "s = 7214067390916443 / 2 ^ 76"
  have i: "i < 200" using assms by simp
  have s_lo: "95 / 10 ^ 9 \<le> s" and s_hi: "s \<le> 96 / 10 ^ 9" by (simp_all add: s_def)
  have "real i + 1 \<le> real j" using assms(1) by simp
  then have "(real i + 1) * s \<le> real j * s" using s_lo by (intro mult_right_mono) simp_all
  then have step: "real i * s + s \<le> real j * s" by (simp add: algebra_simps)
  have "real j * s \<le> 199 * (96 / 10 ^ 9)"
    using assms(2) s_hi s_lo by (intro mult_mono) simp_all
  then have js: "real j * s \<le> 2 / 10 ^ 5" by simp
  have is0: "0 \<le> real i * s" using s_lo by simp
  note ni = Hfit_P_near[OF i, folded s_def] and nj = Hfit_P_near[OF assms(2), folded s_def]
  show "6 / 10 ^ 5 \<le> Hfit_P ! i" using ni(1) is0 by simp
  show "Hfit_P ! i + 9 / 10 ^ 8 \<le> Hfit_P ! j" using ni(2) nj(1) step s_lo by simp
  show "Hfit_P ! j \<le> 9 / 10 ^ 5" using nj(2) js by simp
qed

lemma WVTR_PLA_imperm_decreasing:
  "sorted_wrt (\<lambda>a b. f64_lt b a) WVTR_PLA_imperm"
  unfolding sorted_wrt_iff_nth_less
proof (intro allI impI)
  fix i j
  assume ij: "i < j" and "j < length WVTR_PLA_imperm"
  then have j: "j < 200" by (simp add: WVTR_PLA_imperm_def length_Hfit_P)
  then have i: "i < 200" using ij by simp
  have "f64_lt (imperm (Hfit_P ! j)) (imperm (Hfit_P ! i))"
    using Hfit_P_apart[OF ij j] by (intro imperm_strict)
  then show "f64_lt (WVTR_PLA_imperm ! j) (WVTR_PLA_imperm ! i)"
    using i j by (simp add: WVTR_PLA_imperm_def length_Hfit_P)
qed


text \<open>
  C4: the curve is \<open>Mw * (Ci - Co) / (Hp / D + H / D)\<close> at each of the 200 sampled
  thicknesses, with the positive \<open>D = D_PLA_imperm\<close>; along the samples it is strictly
  decreasing; the samples run from \<open>64e-6\<close> to \<open>83e-6\<close>, and the value at \<open>64e-6\<close> is
  strictly greater than the value at \<open>83e-6\<close>.
\<close>

theorem imperm_curve:
  "WVTR_PLA_imperm =
     map (\<lambda>H. fdiv (fmul Mw (fsub Ci Co))
                  (fadd (fdiv Hp D_PLA_imperm) (fdiv (Fin H) D_PLA_imperm))) Hfit_P \<and>
   length WVTR_PLA_imperm = 200 \<and>
   f64_lt (Fin 0) D_PLA_imperm \<and>
   sorted_wrt (\<lambda>a b. f64_lt b a) WVTR_PLA_imperm \<and>
   hd Hfit_P = rnd (64 / 10 ^ 6) \<and> last Hfit_P = rnd (83 / 10 ^ 6) \<and>
   f64_lt (imperm (rnd (83 / 10 ^ 6))) (imperm (rnd (64 / 10 ^ 6)))"
proof -
  have h64: "rnd (64 / 10 ^ 6) = 4722366482869645 / 2 ^ 66"
    by (simp add: round64_eval)
  have h83: "rnd (83 / 10 ^ 6) = 6124319032471571 / 2 ^ 66"
    by (simp add: round64_eval)
  have again: "rnd (4722366482869645 / 2 ^ 66) = 4722366482869645 / 2 ^ 66"
    by (simp add: round64_eval)
  have ne: "Hfit_P \<noteq> []"
    using length_Hfit_P by auto
  have "Hfit_P ! 0 = rnd (4722366482869645 / 2 ^ 66)"
    by (simp add: Hfit_P_unfold rnd_0)
  then have "Hfit_P ! 0 = rnd (64 / 10 ^ 6)"
    by (simp only: again h64)
  then have first: "hd Hfit_P = rnd (64 / 10 ^ 6)"
    using hd_conv_nth[OF ne] by simp
  have "Hfit_P ! (length Hfit_P - 1) = 6124319032471571 / 2 ^ 66"
    by (simp add: Hfit_P_unfold)
  then have "Hfit_P ! (length Hfit_P - 1) = rnd (83 / 10 ^ 6)"
    by (simp only: h83)
  then have final: "last Hfit_P = rnd (83 / 10 ^ 6)"
    using last_conv_nth[OF ne] by simp
  have ends: "f64_lt (imperm (rnd (83 / 10 ^ 6))) (imperm (rnd (64 / 10 ^ 6)))"
    unfolding h64 h83 by (rule imperm_strict) simp_all
  have "WVTR_PLA_imperm =
     map (\<lambda>H. fdiv (fmul Mw (fsub Ci Co))
                  (fadd (fdiv Hp D_PLA_imperm) (fdiv (Fin H) D_PLA_imperm))) Hfit_P"
    by (simp add: WVTR_PLA_imperm_def imperm_def)
  moreover have "length WVTR_PLA_imperm = 200"
    by (simp add: WVTR_PLA_imperm_def length_Hfit_P)
  moreover have "f64_lt (Fin 0) D_PLA_imperm"
    by (simp add: D_PLA_imperm_val)
  ultimately show ?thesis
    using WVTR_PLA_imperm_decreasing first final ends by blast
qed

end
